theory Spec2Isabelle
  imports Main "HOL-Library.Word"
begin

section \<open>JavaScript strings\<close>

text \<open>
  A JavaScript string is a sequence of 16-bit code units. Literals of the source are
  ASCII, so they are written as HOL strings and converted with \<open>js\<close>.
\<close>

type_synonym jschar = "16 word"
type_synonym jsstring = "jschar list"

definition js :: "string \<Rightarrow> jsstring" where
  "js s = map of_char s"

text \<open>
  \<^verbatim>\<open>String.prototype.trim\<close> and the regular expression class \<^verbatim>\<open>\s\<close> use the same
  set: WhiteSpace and LineTerminator of ECMA-262 (TAB, LF, VT, FF, CR, SP, NBSP, the
  Unicode space separators, LS, PS and the byte order mark).
\<close>

definition isWhiteSpace :: "jschar \<Rightarrow> bool" where
  "isWhiteSpace c \<longleftrightarrow>
     c \<in> set [0x0009, 0x000A, 0x000B, 0x000C, 0x000D, 0x0020, 0x00A0, 0x1680,
               0x2028, 0x2029, 0x202F, 0x205F, 0x3000, 0xFEFF]
     \<or> (0x2000 \<le> c \<and> c \<le> 0x200A)"

definition trim :: "jsstring \<Rightarrow> jsstring" where
  "trim s = rev (dropWhile isWhiteSpace (rev (dropWhile isWhiteSpace s)))"

text \<open>
  \<^verbatim>\<open>s.split(/\s+/)\<close>: the text before each maximal run of white space is one piece,
  and the text after the last run (possibly empty) is the last piece. \<open>cur\<close> holds the
  piece being read, reversed. The empty string gives the one piece \<^verbatim>\<open>""\<close>.
\<close>

function split_ws :: "jsstring \<Rightarrow> jsstring \<Rightarrow> jsstring list" where
  "split_ws cur [] = [rev cur]"
| "split_ws cur (c # cs) =
     (if isWhiteSpace c then rev cur # split_ws [] (dropWhile isWhiteSpace cs)
      else split_ws (c # cur) cs)"
  by pat_completeness auto
termination
  by (relation "measure (\<lambda>(cur, s). length s)")
     (auto simp: le_imp_less_Suc length_dropWhile_le)

definition split_whitespace :: "jsstring \<Rightarrow> jsstring list" where
  "split_whitespace s = split_ws [] s"

text \<open>The decimal digits of a count, as a template literal writes a number.\<close>

function decimal :: "nat \<Rightarrow> string" where
  "decimal n =
     (if n < 10 then [''0123456789'' ! n]
      else decimal (n div 10) @ [''0123456789'' ! (n mod 10)])"
  by pat_completeness auto
termination
  by (relation "measure id") auto

declare decimal.simps [simp del]

text \<open>\<^verbatim>\<open>Array.prototype.join\<close> on a list of strings.\<close>

fun join :: "jsstring \<Rightarrow> jsstring list \<Rightarrow> jsstring" where
  "join sep [] = []"
| "join sep [x] = x"
| "join sep (x # y # ys) = x @ sep @ join sep (y # ys)"


section \<open>JavaScript values\<close>

text \<open>
  The values the class can hold: whatever \<^verbatim>\<open>JSON.parse\<close> returns, and \<^verbatim>\<open>undefined\<close>
  (the value of a missing property). A number is kept as the JSON text that denotes
  it; its IEEE value is not computed, and what depends on that value is asked of the
  platform.
\<close>

datatype jsval =
    JUndefined
  | JNull
  | JBool bool
  | JNum jsstring
  | JStr jsstring
  | JArr "jsval list"
  | JObj "(jsstring \<times> jsval) list"

datatype exn = SyntaxError | TypeError

text \<open>
  The collaborators that are not part of the repository: the two functions of the
  lz-string library that the class calls, and the two facts about a number that need its
  floating-point value (the text \<^verbatim>\<open>JSON.stringify\<close> writes for it, and whether it is zero,
  the only falsy number \<^verbatim>\<open>JSON.parse\<close> can return). \<open>None\<close> is \<^verbatim>\<open>null\<close>.
\<close>

record platform =
  compressToEncodedURIComponent :: "jsstring \<Rightarrow> jsstring"
  decompressFromEncodedURIComponent :: "jsstring \<Rightarrow> jsstring option"
  numberToJSON :: "jsstring \<Rightarrow> jsstring"
  numberIsZero :: "jsstring \<Rightarrow> bool"

text \<open>
  The alphabet of \<^verbatim>\<open>compressToEncodedURIComponent\<close>: the letters, the digits and
  \<^verbatim>\<open>+\<close>, \<^verbatim>\<open>-\<close>, \<^verbatim>\<open>$\<close>.
\<close>

definition inKeyStrUriSafe :: "jschar \<Rightarrow> bool" where
  "inKeyStrUriSafe c \<longleftrightarrow>
     (0x41 \<le> c \<and> c \<le> 0x5A) \<or> (0x61 \<le> c \<and> c \<le> 0x7A) \<or> (0x30 \<le> c \<and> c \<le> 0x39)
     \<or> c = 0x2B \<or> c = 0x2D \<or> c = 0x24"

text \<open>
  Modelled from the spec: the lz-string library is not part of the repository. The spec
  takes the compressor as a reversible black box whose output is safe in a URL fragment,
  and has the empty fragment decode to the error path. So: decompression inverts
  compression, the empty input decompresses to \<^verbatim>\<open>null\<close> (as the library does), and
  compressed text stays inside the URI-safe alphabet (so the browser stores it in the
  fragment as it is).
\<close>

definition LZString_contract :: "platform \<Rightarrow> bool" where
  "LZString_contract P \<longleftrightarrow>
     (\<forall>s. decompressFromEncodedURIComponent P (compressToEncodedURIComponent P s) = Some s)
     \<and> decompressFromEncodedURIComponent P [] = None
     \<and> (\<forall>s. list_all inKeyStrUriSafe (compressToEncodedURIComponent P s))"

text \<open>
  Reading the property \<open>k\<close> of a value, for the two names the program reads (\<^verbatim>\<open>title\<close>
  and \<^verbatim>\<open>list\<close>): no built-in prototype defines them, so only an object's own property
  can give a value; \<^verbatim>\<open>null\<close> and \<^verbatim>\<open>undefined\<close> have no properties and throw.
\<close>

fun getProp :: "jsval \<Rightarrow> jsstring \<Rightarrow> exn + jsval" where
  "getProp JUndefined k = Inl TypeError"
| "getProp JNull k = Inl TypeError"
| "getProp (JObj kvs) k = Inr (case map_of kvs k of None \<Rightarrow> JUndefined | Some v \<Rightarrow> v)"
| "getProp v k = Inr JUndefined"

text \<open>Defining a property: a key that exists keeps its place and takes the new value.\<close>

fun obj_put :: "(jsstring \<times> jsval) list \<Rightarrow> jsstring \<Rightarrow> jsval \<Rightarrow> (jsstring \<times> jsval) list" where
  "obj_put [] k v = [(k, v)]"
| "obj_put ((k', v') # kvs) k v =
     (if k' = k then (k, v) # kvs else (k', v') # obj_put kvs k v)"

text \<open>
  The order in which an object's keys are enumerated: array indices (canonical decimal
  numbers below \<open>2^32 - 1\<close>) in ascending order, then the other keys as created.
\<close>

definition isDigit :: "jschar \<Rightarrow> bool" where
  "isDigit c \<longleftrightarrow> 0x30 \<le> c \<and> c \<le> 0x39"

definition digitsValue :: "jsstring \<Rightarrow> int" where
  "digitsValue ds = foldl (\<lambda>n c. 10 * n + (uint c - 0x30)) 0 ds"

definition isArrayIndex :: "jsstring \<Rightarrow> bool" where
  "isArrayIndex k \<longleftrightarrow>
     k \<noteq> [] \<and> list_all isDigit k \<and> (k = [0x30] \<or> hd k \<noteq> 0x30)
     \<and> digitsValue k < 4294967295"

definition ownPropertyKeys :: "(jsstring \<times> jsval) list \<Rightarrow> (jsstring \<times> jsval) list" where
  "ownPropertyKeys kvs =
     sort_key (\<lambda>kv. digitsValue (fst kv)) (filter (\<lambda>kv. isArrayIndex (fst kv)) kvs)
     @ filter (\<lambda>kv. \<not> isArrayIndex (fst kv)) kvs"

text \<open>
  Spreading a value into an array literal, \<^verbatim>\<open>[...v]\<close>: an array gives its elements, a
  string its code points (a surrogate pair is one element), anything else is not
  iterable.
\<close>

definition isLeadingSurrogate :: "jschar \<Rightarrow> bool" where
  "isLeadingSurrogate c \<longleftrightarrow> 0xD800 \<le> c \<and> c \<le> 0xDBFF"

definition isTrailingSurrogate :: "jschar \<Rightarrow> bool" where
  "isTrailingSurrogate c \<longleftrightarrow> 0xDC00 \<le> c \<and> c \<le> 0xDFFF"

fun codePoints :: "jsstring \<Rightarrow> jsstring list" where
  "codePoints [] = []"
| "codePoints [c] = [[c]]"
| "codePoints (c # d # cs) =
     (if isLeadingSurrogate c \<and> isTrailingSurrogate d then [c, d] # codePoints cs
      else [c] # codePoints (d # cs))"

fun spread :: "jsval \<Rightarrow> exn + jsval list" where
  "spread (JArr xs) = Inr xs"
| "spread (JStr s) = Inr (map JStr (codePoints s))"
| "spread v = Inl TypeError"

text \<open>
  \<^verbatim>\<open>v.push(item)\<close> and \<^verbatim>\<open>v.splice(index, 1)\<close>: only an array has these methods; on any
  other value the call throws a TypeError. \<open>splice\<close> takes a negative start from the end
  of the array and clamps the start to the array: it removes the element at the start,
  when there is one. The index is an integer.
\<close>

fun array_push :: "jsval \<Rightarrow> jsval \<Rightarrow> exn + jsval" where
  "array_push (JArr xs) item = Inr (JArr (xs @ [item]))"
| "array_push v item = Inl TypeError"

definition splice1 :: "'a list \<Rightarrow> int \<Rightarrow> 'a list" where
  "splice1 xs index =
     (let len = int (length xs);
          actualStart = (if index < 0 then max (len + index) 0 else min index len);
          actualDeleteCount = min (max 1 0) (len - actualStart)
      in take (nat actualStart) xs @ drop (nat (actualStart + actualDeleteCount)) xs)"

fun array_splice :: "jsval \<Rightarrow> int \<Rightarrow> exn + jsval" where
  "array_splice (JArr xs) index = Inr (JArr (splice1 xs index))"
| "array_splice v index = Inl TypeError"


section \<open>\<^verbatim>\<open>JSON.stringify\<close>\<close>

text \<open>The lower-case hexadecimal digit of a value below 16.\<close>

definition hexDigit :: "nat \<Rightarrow> jschar" where
  "hexDigit n = (if n < 10 then 0x30 + of_nat n else 0x61 + of_nat (n - 10))"

definition UnicodeEscape :: "jschar \<Rightarrow> jsstring" where
  "UnicodeEscape c =
     [0x5C, 0x75, hexDigit (unat c div 4096), hexDigit (unat c div 256 mod 16),
      hexDigit (unat c div 16 mod 16), hexDigit (unat c mod 16)]"

text \<open>
  One code unit outside a surrogate pair: the short escapes for backspace, tab, line
  feed, form feed, carriage return, the quotation mark and the backslash; a hexadecimal
  escape for the other control characters and for a lone surrogate; itself otherwise.
\<close>

definition quoteUnit :: "jschar \<Rightarrow> jsstring" where
  "quoteUnit c =
     (if c = 0x08 then [0x5C, 0x62]
      else if c = 0x09 then [0x5C, 0x74]
      else if c = 0x0A then [0x5C, 0x6E]
      else if c = 0x0C then [0x5C, 0x66]
      else if c = 0x0D then [0x5C, 0x72]
      else if c = 0x22 then [0x5C, 0x22]
      else if c = 0x5C then [0x5C, 0x5C]
      else if c < 0x20 \<or> isLeadingSurrogate c \<or> isTrailingSurrogate c then UnicodeEscape c
      else [c])"

fun quoteChars :: "jsstring \<Rightarrow> jsstring" where
  "quoteChars [] = []"
| "quoteChars [c] = quoteUnit c"
| "quoteChars (c # d # cs) =
     (if isLeadingSurrogate c \<and> isTrailingSurrogate d then c # d # quoteChars cs
      else quoteUnit c @ quoteChars (d # cs))"

definition QuoteJSONString :: "jsstring \<Rightarrow> jsstring" where
  "QuoteJSONString s = 0x22 # quoteChars s @ [0x22]"

text \<open>
  The three serialisation operations of ECMA-262. \<open>None\<close> is \<^verbatim>\<open>undefined\<close>: a property
  with that value is left out of an object and written \<^verbatim>\<open>null\<close> in an array.
\<close>

function SerializeJSONProperty :: "platform \<Rightarrow> jsval \<Rightarrow> jsstring option"
  and SerializeJSONObject :: "platform \<Rightarrow> (jsstring \<times> jsval) list \<Rightarrow> jsstring"
  and SerializeJSONArray :: "platform \<Rightarrow> jsval list \<Rightarrow> jsstring"
where
  "SerializeJSONProperty P JUndefined = None"
| "SerializeJSONProperty P JNull = Some (js ''null'')"
| "SerializeJSONProperty P (JBool b) = Some (if b then js ''true'' else js ''false'')"
| "SerializeJSONProperty P (JNum n) = Some (numberToJSON P n)"
| "SerializeJSONProperty P (JStr s) = Some (QuoteJSONString s)"
| "SerializeJSONProperty P (JArr xs) = Some (SerializeJSONArray P xs)"
| "SerializeJSONProperty P (JObj kvs) = Some (SerializeJSONObject P kvs)"
| "SerializeJSONObject P kvs =
     0x7B # join [0x2C]
       (concat (map (\<lambda>kv. case SerializeJSONProperty P (snd kv) of
                             None \<Rightarrow> []
                           | Some t \<Rightarrow> [QuoteJSONString (fst kv) @ 0x3A # t])
                    (ownPropertyKeys kvs)))
     @ [0x7D]"
| "SerializeJSONArray P xs =
     0x5B # join [0x2C]
       (map (\<lambda>x. case SerializeJSONProperty P x of None \<Rightarrow> js ''null'' | Some t \<Rightarrow> t) xs)
     @ [0x5D]"
  by pat_completeness auto
termination
proof (relation "measure (\<lambda>a. case a of
          Inl (P, v) \<Rightarrow> 2 * size v
        | Inr (Inl (P, kvs)) \<Rightarrow> 2 * size (JObj kvs) - 1
        | Inr (Inr (P, xs)) \<Rightarrow> 2 * size (JArr xs) - 1)", goal_cases)
  case 1
  show ?case by simp
next
  case (2 P xs)
  show ?case by simp
next
  case (3 P kvs)
  show ?case by simp
next
  case (4 P kvs kv)
  then have "kv \<in> set kvs"
    by (auto simp: ownPropertyKeys_def)
  moreover have "size (snd kv) \<le> size_prod (\<lambda>_. 0) size kv"
    by (cases kv) simp
  ultimately have "size (snd kv) \<le> size_list (size_prod (\<lambda>_. 0) size) kvs"
    by (rule size_list_estimation')
  then show ?case by simp
next
  case (5 P xs x)
  then have "size x < size (JArr xs)"
    by (auto simp: less_Suc_eq_le dest: size_list_estimation'[where f = size and y = "size x"])
  then show ?case by simp
qed


section \<open>\<^verbatim>\<open>JSON.parse\<close>\<close>

definition isJSONWhiteSpace :: "jschar \<Rightarrow> bool" where
  "isJSONWhiteSpace c \<longleftrightarrow> c \<in> set [0x09, 0x0A, 0x0D, 0x20]"

definition skipWhiteSpace :: "jsstring \<Rightarrow> jsstring" where
  "skipWhiteSpace s = dropWhile isJSONWhiteSpace s"

definition hexValue :: "jschar \<Rightarrow> nat option" where
  "hexValue c =
     (if 0x30 \<le> c \<and> c \<le> 0x39 then Some (unat c - 0x30)
      else if 0x61 \<le> c \<and> c \<le> 0x66 then Some (unat c - 0x61 + 10)
      else if 0x41 \<le> c \<and> c \<le> 0x46 then Some (unat c - 0x41 + 10)
      else None)"

definition hex4 :: "jschar \<Rightarrow> jschar \<Rightarrow> jschar \<Rightarrow> jschar \<Rightarrow> jschar option" where
  "hex4 a b c d =
     (case (hexValue a, hexValue b, hexValue c, hexValue d) of
        (Some x3, Some x2, Some x1, Some x0) \<Rightarrow>
          Some (of_nat (4096 * x3 + 256 * x2 + 16 * x1 + x0))
      | _ \<Rightarrow> None)"

text \<open>The character after a backslash, other than \<^verbatim>\<open>u\<close>.\<close>

definition unescape :: "jschar \<Rightarrow> jschar option" where
  "unescape e =
     (if e = 0x22 then Some 0x22
      else if e = 0x5C then Some 0x5C
      else if e = 0x2F then Some 0x2F
      else if e = 0x62 then Some 0x08
      else if e = 0x66 then Some 0x0C
      else if e = 0x6E then Some 0x0A
      else if e = 0x72 then Some 0x0D
      else if e = 0x74 then Some 0x09
      else None)"

text \<open>
  The characters of a string after its opening quotation mark, up to the closing one.
  \<open>acc\<close> holds the code units read so far, reversed. A control character, an unknown
  escape and the end of the text are syntax errors.
\<close>

fun parseChars :: "jsstring \<Rightarrow> jsstring \<Rightarrow> (jsstring \<times> jsstring) option" where
  "parseChars acc [] = None"
| "parseChars acc (c # cs) =
     (if c = 0x22 then Some (rev acc, cs)
      else if c = 0x5C then
        (case cs of
           [] \<Rightarrow> None
         | e # es \<Rightarrow>
             if e = 0x75 then
               (case es of
                  h3 # h2 # h1 # h0 # rest \<Rightarrow>
                    (case hex4 h3 h2 h1 h0 of
                       None \<Rightarrow> None
                     | Some u \<Rightarrow> parseChars (u # acc) rest)
                | _ \<Rightarrow> None)
             else
               (case unescape e of
                  None \<Rightarrow> None
                | Some u \<Rightarrow> parseChars (u # acc) es))
      else if c < 0x20 then None
      else parseChars (c # acc) cs)"

text \<open>
  A number: an optional minus sign, an integer part without a leading zero, an optional
  fraction and an optional exponent. The result is the text of the number and the rest
  of the input.
\<close>

definition scanDigits :: "jsstring \<Rightarrow> jsstring \<times> jsstring" where
  "scanDigits s = (takeWhile isDigit s, dropWhile isDigit s)"

definition scanSign :: "jschar list \<Rightarrow> jsstring \<Rightarrow> jsstring \<times> jsstring" where
  "scanSign signs s =
     (case s of
        [] \<Rightarrow> ([], s)
      | c # cs \<Rightarrow> if c \<in> set signs then ([c], cs) else ([], s))"

definition scanInt :: "jsstring \<Rightarrow> (jsstring \<times> jsstring) option" where
  "scanInt s =
     (case s of
        [] \<Rightarrow> None
      | d # ds \<Rightarrow>
          if \<not> isDigit d then None
          else if d = 0x30 then Some ([d], ds)
          else Some (d # fst (scanDigits ds), snd (scanDigits ds)))"

definition scanFraction :: "jsstring \<Rightarrow> jsstring \<times> jsstring" where
  "scanFraction s =
     (case s of
        [] \<Rightarrow> ([], s)
      | c # cs \<Rightarrow>
          if c = 0x2E \<and> fst (scanDigits cs) \<noteq> []
          then (c # fst (scanDigits cs), snd (scanDigits cs))
          else ([], s))"

definition scanExponent :: "jsstring \<Rightarrow> jsstring \<times> jsstring" where
  "scanExponent s =
     (case s of
        [] \<Rightarrow> ([], s)
      | c # cs \<Rightarrow>
          if c = 0x65 \<or> c = 0x45 then
            (let (sg, cs') = scanSign [0x2B, 0x2D] cs
             in if fst (scanDigits cs') \<noteq> []
                then (c # sg @ fst (scanDigits cs'), snd (scanDigits cs'))
                else ([], s))
          else ([], s))"

definition scanNumber :: "jsstring \<Rightarrow> (jsstring \<times> jsstring) option" where
  "scanNumber s =
     (let (sg, s1) = scanSign [0x2D] s
      in case scanInt s1 of
           None \<Rightarrow> None
         | Some (ip, s2) \<Rightarrow>
             (let (fp, s3) = scanFraction s2;
                  (ep, s4) = scanExponent s3
              in Some (sg @ ip @ fp @ ep, s4)))"

definition parseLiteral :: "jsstring \<Rightarrow> jsval \<Rightarrow> jsstring \<Rightarrow> (jsval \<times> jsstring) option" where
  "parseLiteral w v s =
     (if take (length w) s = w then Some (v, drop (length w) s) else None)"

text \<open>
  A value, the elements of an array after its opening bracket, and the members of an
  object after its opening brace. Each returns what it read and the rest of the input,
  or \<open>None\<close> for a syntax error. The comparisons of lengths only serve the termination
  proof: what a successful call returns is always shorter than what it was given
  (lemma \<open>parse_shorter\<close>).
\<close>

function parseValue :: "jsstring \<Rightarrow> (jsval \<times> jsstring) option"
  and parseElements :: "jsval list \<Rightarrow> jsstring \<Rightarrow> (jsval \<times> jsstring) option"
  and parseMembers :: "(jsstring \<times> jsval) list \<Rightarrow> jsstring \<Rightarrow> (jsval \<times> jsstring) option"
where
  "parseValue s =
     (case skipWhiteSpace s of
        [] \<Rightarrow> None
      | c # cs \<Rightarrow>
          if c = 0x22 then
            (case parseChars [] cs of
               None \<Rightarrow> None
             | Some (t, rest) \<Rightarrow> Some (JStr t, rest))
          else if c = 0x5B then
            (case skipWhiteSpace cs of
               [] \<Rightarrow> None
             | d # ds \<Rightarrow> if d = 0x5D then Some (JArr [], ds) else parseElements [] cs)
          else if c = 0x7B then
            (case skipWhiteSpace cs of
               [] \<Rightarrow> None
             | d # ds \<Rightarrow> if d = 0x7D then Some (JObj [], ds) else parseMembers [] cs)
          else if c = 0x74 then parseLiteral (js ''true'') (JBool True) (c # cs)
          else if c = 0x66 then parseLiteral (js ''false'') (JBool False) (c # cs)
          else if c = 0x6E then parseLiteral (js ''null'') JNull (c # cs)
          else
            (case scanNumber (c # cs) of
               None \<Rightarrow> None
             | Some (n, rest) \<Rightarrow> Some (JNum n, rest)))"
| "parseElements acc s =
     (case parseValue s of
        None \<Rightarrow> None
      | Some (v, rest) \<Rightarrow>
          if length s \<le> length rest then None
          else
            (case skipWhiteSpace rest of
               [] \<Rightarrow> None
             | d # ds \<Rightarrow>
                 if d = 0x2C then parseElements (acc @ [v]) ds
                 else if d = 0x5D then Some (JArr (acc @ [v]), ds)
                 else None))"
| "parseMembers acc s =
     (case skipWhiteSpace s of
        [] \<Rightarrow> None
      | q # cs \<Rightarrow>
          if q \<noteq> 0x22 then None
          else
            (case parseChars [] cs of
               None \<Rightarrow> None
             | Some (k, rest) \<Rightarrow>
                 (case skipWhiteSpace rest of
                    [] \<Rightarrow> None
                  | c # rest1 \<Rightarrow>
                      if c \<noteq> 0x3A \<or> length s \<le> length rest1 then None
                      else
                        (case parseValue rest1 of
                           None \<Rightarrow> None
                         | Some (v, rest2) \<Rightarrow>
                             if length rest1 \<le> length rest2 then None
                             else
                               (case skipWhiteSpace rest2 of
                                  [] \<Rightarrow> None
                                | d # ds \<Rightarrow>
                                    if d = 0x2C then parseMembers (obj_put acc k v) ds
                                    else if d = 0x7D then Some (JObj (obj_put acc k v), ds)
                                    else None)))))"
  by pat_completeness auto
termination
proof (relation "measure (\<lambda>a. case a of
          Inl s \<Rightarrow> 2 * length s
        | Inr (Inl (acc, s)) \<Rightarrow> 2 * length s + 1
        | Inr (Inr (acc, s)) \<Rightarrow> 2 * length s + 1)", goal_cases)
  case 1
  show ?case by simp
next
  case (2 s c cs d ds)
  have "length (skipWhiteSpace s) \<le> length s"
    by (simp add: skipWhiteSpace_def length_dropWhile_le)
  with 2 show ?case by simp
next
  case (3 s c cs d ds)
  have "length (skipWhiteSpace s) \<le> length s"
    by (simp add: skipWhiteSpace_def length_dropWhile_le)
  with 3 show ?case by simp
next
  case (4 acc s)
  show ?case by simp
next
  case (5 acc s x v rest d ds)
  have "length (skipWhiteSpace rest) \<le> length rest"
    by (simp add: skipWhiteSpace_def length_dropWhile_le)
  with 5 show ?case by simp
next
  case (6 acc s q cs x k rest c rest1)
  then show ?case by simp
next
  case (7 acc s q cs x k rest c rest1 y v rest2 d ds)
  have "length (skipWhiteSpace rest2) \<le> length rest2"
    by (simp add: skipWhiteSpace_def length_dropWhile_le)
  with 7 show ?case by simp
qed

declare parseValue.simps [simp del] parseElements.simps [simp del] parseMembers.simps [simp del]

text \<open>
  \<^verbatim>\<open>JSON.parse(text)\<close>: the argument is converted to a string first (\<^verbatim>\<open>null\<close> becomes the
  text \<^verbatim>\<open>null\<close>); the text must be one value, with nothing but white space around it.
\<close>

definition JSON_parse :: "jsstring option \<Rightarrow> exn + jsval" where
  "JSON_parse text =
     (case parseValue (case text of None \<Rightarrow> js ''null'' | Some s \<Rightarrow> s) of
        None \<Rightarrow> Inl SyntaxError
      | Some (v, rest) \<Rightarrow> if skipWhiteSpace rest = [] then Inr v else Inl SyntaxError)"


section \<open>The class \<^verbatim>\<open>hostGame\<close>\<close>

text \<open>
  The two private fields of the class, and \<^verbatim>\<open>window.location.hash\<close>, the only state
  outside the class that its methods read or write. A field holds any value: the
  constructor stores whatever the decoded fragment contains.
\<close>

record hostGame =
  qList :: jsval
  gName :: jsval
  location_hash :: jsstring

text \<open>The object a method returns: \<^verbatim>\<open>{ success, error }\<close>.\<close>

record result =
  success :: bool
  error :: "string option"

text \<open>
  Assigning to \<^verbatim>\<open>window.location.hash\<close> and reading it back: one leading \<^verbatim>\<open>#\<close> of the
  assigned text is dropped, and the property reads as \<^verbatim>\<open>#\<close> followed by the fragment,
  or as the empty string when the fragment is empty. (The browser percent-encodes
  characters that a fragment cannot hold; the alphabet of lz-string has none.)
\<close>

definition assign_hash :: "jsstring \<Rightarrow> jsstring" where
  "assign_hash v =
     (let fragment = (case v of [] \<Rightarrow> [] | c # cs \<Rightarrow> if c = 0x23 then cs else v)
      in if fragment = [] then [] else 0x23 # fragment)"

definition hashState :: "platform \<Rightarrow> hostGame \<Rightarrow> hostGame" where
  "hashState P st =
     (let jsonString = SerializeJSONObject P [(js ''title'', gName st), (js ''list'', qList st)];
          hashString = compressToEncodedURIComponent P jsonString
      in st\<lparr>location_hash := assign_hash hashString\<rparr>)"

text \<open>
  The body of the \<^verbatim>\<open>try\<close> block of \<^verbatim>\<open>#unhashState\<close> (second revision): \<open>Inl\<close> is the
  exception it throws. The title is read and stored before the list is read; the
  handler overwrites both fields, so a field stored before a throw is never seen.
\<close>

definition unhashState_try :: "platform \<Rightarrow> hostGame \<Rightarrow> exn + hostGame" where
  "unhashState_try P st =
     (let hashString = drop 1 (location_hash st);
          jsonString = decompressFromEncodedURIComponent P hashString
      in case JSON_parse jsonString of
           Inl e \<Rightarrow> Inl e
         | Inr obj \<Rightarrow>
             (case getProp obj (js ''title'') of
                Inl e \<Rightarrow> Inl e
              | Inr t \<Rightarrow>
                  (case getProp obj (js ''list'') of
                     Inl e \<Rightarrow> Inl e
                   | Inr l \<Rightarrow> Inr (st\<lparr>gName := t, qList := l\<rparr>))))"

definition unhashState :: "platform \<Rightarrow> hostGame \<Rightarrow> result \<times> hostGame" where
  "unhashState P st =
     (case unhashState_try P st of
        Inr st' \<Rightarrow> (\<lparr>success = True, error = None\<rparr>, st')
      | Inl e \<Rightarrow>
          (\<lparr>success = False, error = Some ''Error decoding''\<rparr>,
           st\<lparr>gName := JStr [], qList := JArr []\<rparr>))"

text \<open>
  The first revision of \<^verbatim>\<open>#unhashState\<close> has no \<^verbatim>\<open>try\<close>: an exception of \<^verbatim>\<open>JSON.parse\<close>
  leaves the method (\<open>Inl\<close>), and a falsy parsed value takes the error branch.
\<close>

fun truthy :: "platform \<Rightarrow> jsval \<Rightarrow> bool" where
  "truthy P JUndefined = False"
| "truthy P JNull = False"
| "truthy P (JBool b) = b"
| "truthy P (JNum n) = (\<not> numberIsZero P n)"
| "truthy P (JStr s) = (s \<noteq> [])"
| "truthy P (JArr xs) = True"
| "truthy P (JObj kvs) = True"

definition unhashState_rev1 :: "platform \<Rightarrow> hostGame \<Rightarrow> exn + result \<times> hostGame" where
  "unhashState_rev1 P st =
     (let hashString = drop 1 (location_hash st);
          jsonString = decompressFromEncodedURIComponent P hashString
      in case JSON_parse jsonString of
           Inl e \<Rightarrow> Inl e
         | Inr obj \<Rightarrow>
             if \<not> truthy P obj then
               Inr (\<lparr>success = False, error = Some ''Error decoding''\<rparr>,
                    st\<lparr>gName := JStr [], qList := JArr []\<rparr>)
             else
               (case getProp obj (js ''title'') of
                  Inl e \<Rightarrow> Inl e
                | Inr t \<Rightarrow>
                    (case getProp obj (js ''list'') of
                       Inl e \<Rightarrow> Inl e
                     | Inr l \<Rightarrow>
                         Inr (\<lparr>success = True, error = None\<rparr>, st\<lparr>gName := t, qList := l\<rparr>))))"

text \<open>
  The constructor: the field initialisers, then \<^verbatim>\<open>#unhashState\<close>, whose result object is
  dropped. The argument is \<^verbatim>\<open>window.location.hash\<close> when the page loads.
\<close>

definition new_hostGame :: "platform \<Rightarrow> jsstring \<Rightarrow> hostGame" where
  "new_hostGame P h =
     snd (unhashState P \<lparr>qList = JArr [], gName = JStr [], location_hash = h\<rparr>)"

definition getGameName :: "hostGame \<Rightarrow> jsval" where
  "getGameName st = gName st"

definition getQuestions :: "hostGame \<Rightarrow> exn + jsval list" where
  "getQuestions st = spread (qList st)"

text \<open>
  \<^verbatim>\<open>qListAdd\<close>: \<open>Inl\<close> is an exception thrown by \<^verbatim>\<open>push\<close> (the list field is not an
  array); nothing has been assigned when it is thrown. \<open>Inr\<close> is the returned object
  and the state after the call.
\<close>

definition qListAdd :: "platform \<Rightarrow> jsval \<Rightarrow> hostGame \<Rightarrow> exn + result \<times> hostGame" where
  "qListAdd P item st =
     (case item of
        JStr s \<Rightarrow>
          if trim s = [] then
            Inr (\<lparr>success = False, error = Some ''Question cannot be empty''\<rparr>, st)
          else
            (let wordCount = length (split_whitespace (trim s))
             in if wordCount > 20 then
                  Inr (\<lparr>success = False,
                        error = Some (''Question must be 20 words or less (currently ''
                                      @ decimal wordCount @ '' words)'')\<rparr>, st)
                else
                  (case array_push (qList st) item of
                     Inl e \<Rightarrow> Inl e
                   | Inr q \<Rightarrow>
                       Inr (\<lparr>success = True, error = None\<rparr>, hashState P (st\<lparr>qList := q\<rparr>))))
      | _ \<Rightarrow> Inr (\<lparr>success = False, error = Some ''Item must be a string''\<rparr>, st))"

definition qListDelete :: "platform \<Rightarrow> int \<Rightarrow> hostGame \<Rightarrow> exn + hostGame" where
  "qListDelete P index st =
     (case array_splice (qList st) index of
        Inl e \<Rightarrow> Inl e
      | Inr q \<Rightarrow> Inr (hashState P (st\<lparr>qList := q\<rparr>)))"

definition setGName :: "platform \<Rightarrow> jsval \<Rightarrow> hostGame \<Rightarrow> hostGame" where
  "setGName P name st = hashState P (st\<lparr>gName := name\<rparr>)"


section \<open>Well-formed states and reachable states\<close>

text \<open>
  A question as \<^verbatim>\<open>qListAdd\<close> accepts it: a string that is not empty after trimming and
  has at most 20 pieces between runs of white space.
\<close>

definition validQuestion :: "jsval \<Rightarrow> bool" where
  "validQuestion v =
     (case v of
        JStr s \<Rightarrow> trim s \<noteq> [] \<and> length (split_whitespace (trim s)) \<le> 20
      | _ \<Rightarrow> False)"

definition validQuestions :: "hostGame \<Rightarrow> bool" where
  "validQuestions st = (case qList st of JArr xs \<Rightarrow> list_all validQuestion xs | _ \<Rightarrow> False)"

text \<open>
  The states that the public methods reach from a state \<open>s0\<close>. A call that throws
  changes nothing, so it is no step.
\<close>

inductive reachable :: "platform \<Rightarrow> hostGame \<Rightarrow> hostGame \<Rightarrow> bool" for P s0 where
  start: "reachable P s0 s0"
| title: "reachable P s0 s \<Longrightarrow> reachable P s0 (setGName P name s)"
| add: "reachable P s0 s \<Longrightarrow> qListAdd P item s = Inr (r, s') \<Longrightarrow> reachable P s0 s'"
| delete: "reachable P s0 s \<Longrightarrow> qListDelete P index s = Inr s' \<Longrightarrow> reachable P s0 s'"

text \<open>
  The whitespace-delimited words of a text, in the specification's sense: the maximal
  runs of characters that are not white space. The source counts the pieces of
  \<^verbatim>\<open>item.trim().split(/\s+/)\<close> instead; lemma \<open>wordCount_spec_words\<close> shows that the two
  counts agree.
\<close>

function spec_words :: "jsstring \<Rightarrow> jsstring list" where
  "spec_words s =
     (let s' = dropWhile isWhiteSpace s
      in if s' = [] then []
         else takeWhile (\<lambda>c. \<not> isWhiteSpace c) s'
              # spec_words (dropWhile (\<lambda>c. \<not> isWhiteSpace c) s'))"
  by pat_completeness auto
termination
proof (relation "measure length", goal_cases)
  case 1
  show ?case by simp
next
  case (2 s s')
  have shrink: "length (dropWhile Q xs) < length xs" if "xs \<noteq> []" "Q (hd xs)"
    for Q and xs :: jsstring
    using that by (cases xs) (simp_all add: le_imp_less_Suc length_dropWhile_le)
  have "\<not> isWhiteSpace (hd s')"
    using 2 hd_dropWhile [of isWhiteSpace s] by simp
  with 2 have "length (dropWhile (\<lambda>c. \<not> isWhiteSpace c) s') < length s'"
    by (intro shrink)
  moreover have "length s' \<le> length s"
    using 2 by (simp add: length_dropWhile_le)
  ultimately show ?case
    by simp
qed

declare spec_words.simps [simp del]


section \<open>A stand-in for lz-string\<close>

text \<open>
  A platform that keeps the contract, to instantiate the theorems at concrete inputs:
  the compressed text is the letter \<^verbatim>\<open>Q\<close> and four hexadecimal digits for each code
  unit. A number is written back as it was read, and is zero when its digits before the
  exponent are.
\<close>

fun hexDecode :: "jsstring \<Rightarrow> jsstring option" where
  "hexDecode [] = Some []"
| "hexDecode (a # b # c # d # rest) =
     (case hex4 a b c d of
        None \<Rightarrow> None
      | Some u \<Rightarrow> (case hexDecode rest of None \<Rightarrow> None | Some us \<Rightarrow> Some (u # us)))"
| "hexDecode _ = None"

definition hexEncode :: "jsstring \<Rightarrow> jsstring" where
  "hexEncode s = concat (map (\<lambda>c. drop 2 (UnicodeEscape c)) s)"

definition hexPlatform :: platform where
  "hexPlatform =
     \<lparr>compressToEncodedURIComponent = (\<lambda>s. 0x51 # hexEncode s),
      decompressFromEncodedURIComponent =
        (\<lambda>t. case t of [] \<Rightarrow> None | q # r \<Rightarrow> if q = 0x51 then hexDecode r else None),
      numberToJSON = (\<lambda>n. n),
      numberIsZero =
        (\<lambda>n. list_all (\<lambda>c. \<not> (0x31 \<le> c \<and> c \<le> 0x39))
               (takeWhile (\<lambda>c. c \<noteq> 0x65 \<and> c \<noteq> 0x45) n))\<rparr>"


section \<open>Properties of the JSON functions\<close>

subsection \<open>A quoted string reads back as the string\<close>

lemma unat_hexDigit:
  "n < 16 \<Longrightarrow> unat (hexDigit n) = (if n < 10 then 48 + n else 87 + n)"
  by (simp add: hexDigit_def unat_word_ariths unat_of_nat)

lemma hexValue_hexDigit: "n < 16 \<Longrightarrow> hexValue (hexDigit n) = Some n"
  by (simp add: hexValue_def word_le_nat_alt unat_hexDigit)

lemma hex_digits_sum:
  "4096 * (n div 4096) + 256 * (n div 256 mod 16) + 16 * (n div 16 mod 16) + n mod 16 = (n::nat)"
proof -
  define x3 x2 x1 x0 where "x3 = n div 4096" and "x2 = n div 256 mod 16"
    and "x1 = n div 16 mod 16" and "x0 = n mod 16"
  define m2 m1 where "m2 = n div 256" and "m1 = n div 16"
  have "m2 div 16 = x3" "m1 div 16 = m2"
    by (simp_all add: m2_def m1_def x3_def div_mult2_eq)
  then have "m2 = 16 * x3 + x2" "m1 = 16 * m2 + x1" "n = 16 * m1 + x0"
    unfolding x2_def x1_def x0_def
    using div_mult_mod_eq [of m2 16] div_mult_mod_eq [of m1 16] div_mult_mod_eq [of n 16]
    by (simp_all add: m2_def [symmetric] m1_def [symmetric] mult.commute)
  then have "4096 * x3 + 256 * x2 + 16 * x1 + x0 = n"
    by linarith
  then show ?thesis
    by (simp add: x3_def x2_def x1_def x0_def)
qed

lemma hex4_hexDigit:
  "hex4 (hexDigit (unat c div 4096)) (hexDigit (unat c div 256 mod 16))
        (hexDigit (unat c div 16 mod 16)) (hexDigit (unat c mod 16)) = Some (c::jschar)"
proof -
  have lt: "unat c < 65536"
    using unsigned_less [of c] by simp
  then have "unat c div 4096 < 16"
    by simp
  then show ?thesis
    by (simp add: hex4_def hexValue_hexDigit hex_digits_sum)
qed

lemma parseChars_UnicodeEscape:
  "parseChars acc (UnicodeEscape c @ t) = parseChars (c # acc) t"
  by (simp add: UnicodeEscape_def hex4_hexDigit)


lemma parseChars_quoteUnit:
  "parseChars acc (quoteUnit c @ t) = parseChars (c # acc) t"
  unfolding quoteUnit_def
  by (simp add: parseChars_UnicodeEscape unescape_def)

lemma surrogate_plain:
  assumes "isLeadingSurrogate c \<or> isTrailingSurrogate c"
  shows "c \<noteq> 0x22" "c \<noteq> 0x5C" "\<not> c < 0x20"
  using assms
  by (auto simp: isLeadingSurrogate_def isTrailingSurrogate_def word_le_nat_alt word_less_nat_alt)

lemma parseChars_quoteChars:
  "parseChars acc (quoteChars s @ 0x22 # rest) = Some (rev acc @ s, rest)"
proof (induction s arbitrary: acc rule: quoteChars.induct)
  case 1
  show ?case by simp
next
  case (2 c)
  show ?case by (simp add: parseChars_quoteUnit)
next
  case (3 c d cs)
  show ?case
  proof (cases "isLeadingSurrogate c \<and> isTrailingSurrogate d")
    case True
    then have "quoteChars (c # d # cs) = c # d # quoteChars cs"
      by simp
    moreover have "parseChars acc (c # d # quoteChars cs @ 0x22 # rest)
        = parseChars (d # c # acc) (quoteChars cs @ 0x22 # rest)"
      using True by (simp add: surrogate_plain)
    ultimately show ?thesis
      using 3(1) [OF True, of "d # c # acc"] by simp
  next
    case False
    have "quoteChars (c # d # cs) = quoteUnit c @ quoteChars (d # cs)"
      by (simp add: False)
    then have "parseChars acc (quoteChars (c # d # cs) @ 0x22 # rest)
        = parseChars (c # acc) (quoteChars (d # cs) @ 0x22 # rest)"
      by (simp only: append_assoc parseChars_quoteUnit)
    then show ?thesis
      using 3(2) [OF False, of "c # acc"] by simp
  qed
qed

lemma skipWhiteSpace_Cons:
  "\<not> isJSONWhiteSpace c \<Longrightarrow> skipWhiteSpace (c # cs) = c # cs"
  by (simp add: skipWhiteSpace_def)

lemma parseValue_string:
  "parseValue (QuoteJSONString s @ rest) = Some (JStr s, rest)"
  by (subst parseValue.simps)
     (simp add: QuoteJSONString_def skipWhiteSpace_Cons isJSONWhiteSpace_def parseChars_quoteChars)


lemma parseChars_shorter:
  "parseChars acc s = Some (t, rest) \<Longrightarrow> length rest < length s"
proof (induction acc s rule: parseChars.induct)
  case (1 acc)
  then show ?case by simp
next
  case (2 acc c cs)
  then show ?case
    by (auto split: if_splits list.splits option.splits simp: less_Suc_eq)
qed

lemma scanSign_shorter: "scanSign signs s = (sg, r) \<Longrightarrow> length r \<le> length s"
  by (auto simp: scanSign_def split: list.splits if_splits)

lemma scanDigits_shorter: "length (snd (scanDigits s)) \<le> length s"
  by (simp add: scanDigits_def length_dropWhile_le)

lemma scanInt_shorter: "scanInt s = Some (ip, r) \<Longrightarrow> length r < length s"
  using scanDigits_shorter [of "tl s"]
  by (auto simp: scanInt_def split: list.splits if_splits)

lemma scanFraction_shorter: "scanFraction s = (fp, r) \<Longrightarrow> length r \<le> length s"
  using scanDigits_shorter [of "tl s"]
  by (auto simp: scanFraction_def split: list.splits if_splits)

lemma scanExponent_shorter: "scanExponent s = (ep, r) \<Longrightarrow> length r \<le> length s"
proof (cases s)
  case Nil
  then show "scanExponent s = (ep, r) \<Longrightarrow> length r \<le> length s"
    by (simp add: scanExponent_def)
next
  case (Cons c cs)
  obtain sg cs' where sc: "scanSign [0x2B, 0x2D] cs = (sg, cs')"
    by (cases "scanSign [0x2B, 0x2D] cs")
  assume "scanExponent s = (ep, r)"
  then show "length r \<le> length s"
    using Cons sc scanSign_shorter [OF sc] scanDigits_shorter [of cs']
    by (auto simp: scanExponent_def split: if_splits)
qed

lemma scanNumber_shorter: "scanNumber s = Some (n, rest) \<Longrightarrow> length rest < length s"
proof -
  assume a: "scanNumber s = Some (n, rest)"
  obtain sg s1 where 1: "scanSign [0x2D] s = (sg, s1)"
    by (cases "scanSign [0x2D] s")
  from a 1 obtain ip s2 where 2: "scanInt s1 = Some (ip, s2)"
    by (auto simp: scanNumber_def split: option.splits)
  obtain fp s3 where 3: "scanFraction s2 = (fp, s3)"
    by (cases "scanFraction s2")
  obtain ep s4 where 4: "scanExponent s3 = (ep, s4)"
    by (cases "scanExponent s3")
  from a 1 2 3 4 have "rest = s4"
    by (simp add: scanNumber_def)
  then show ?thesis
    using scanSign_shorter [OF 1] scanInt_shorter [OF 2] scanFraction_shorter [OF 3]
      scanExponent_shorter [OF 4]
    by simp
qed

lemma parseLiteral_shorter:
  "parseLiteral w v s = Some (v', rest) \<Longrightarrow> w \<noteq> [] \<Longrightarrow> length rest < length s"
  by (cases s) (auto simp: parseLiteral_def split: if_splits)

lemma skipWhiteSpace_shorter: "length (skipWhiteSpace s) \<le> length s"
  by (simp add: skipWhiteSpace_def length_dropWhile_le)


lemma parse_shorter:
  "parseValue s = Some (v, rest) \<Longrightarrow> length rest < length s"
  "parseElements acc s1 = Some (v1, rest1) \<Longrightarrow> length rest1 < length s1"
  "parseMembers acc' s2 = Some (v2, rest2) \<Longrightarrow> length rest2 < length s2"
proof (induction s and acc s1 and acc' s2 arbitrary: v rest and v1 rest1 and v2 rest2
    rule: parseValue_parseElements_parseMembers.induct)
  case (1 s)
  obtain c cs where sk: "skipWhiteSpace s = c # cs"
    using "1.prems" by (subst (asm) parseValue.simps) (auto split: list.splits)
  then have len: "length cs < length s"
    using skipWhiteSpace_shorter [of s] by simp
  from "1.prems" sk have *:
    "(if c = 0x22 then
        (case parseChars [] cs of None \<Rightarrow> None | Some (t, rest) \<Rightarrow> Some (JStr t, rest))
      else if c = 0x5B then
        (case skipWhiteSpace cs of
           [] \<Rightarrow> None
         | d # ds \<Rightarrow> if d = 0x5D then Some (JArr [], ds) else parseElements [] cs)
      else if c = 0x7B then
        (case skipWhiteSpace cs of
           [] \<Rightarrow> None
         | d # ds \<Rightarrow> if d = 0x7D then Some (JObj [], ds) else parseMembers [] cs)
      else if c = 0x74 then parseLiteral (js ''true'') (JBool True) (c # cs)
      else if c = 0x66 then parseLiteral (js ''false'') (JBool False) (c # cs)
      else if c = 0x6E then parseLiteral (js ''null'') JNull (c # cs)
      else (case scanNumber (c # cs) of None \<Rightarrow> None | Some (n, rest) \<Rightarrow> Some (JNum n, rest)))
     = Some (v, rest)"
    by (subst (asm) parseValue.simps) simp
  consider (str) "c = 0x22" | (arr) "c \<noteq> 0x22" "c = 0x5B" | (obj) "c \<noteq> 0x22" "c \<noteq> 0x5B" "c = 0x7B"
    | (other) "c \<noteq> 0x22" "c \<noteq> 0x5B" "c \<noteq> 0x7B"
    by blast
  then show ?case
  proof cases
    case str
    with * len show ?thesis
      by (auto split: option.splits dest!: parseChars_shorter)
  next
    case arr
    with * obtain d ds where d: "skipWhiteSpace cs = d # ds"
      by (auto split: list.splits)
    show ?thesis
    proof (cases "d = 0x5D")
      case True
      with * arr d len skipWhiteSpace_shorter [of cs] show ?thesis
        by auto
    next
      case False
      with * arr d have "parseElements [] cs = Some (v, rest)"
        by simp
      from "1.IH"(1) [OF sk arr d False this] len show ?thesis
        by simp
    qed
  next
    case obj
    with * obtain d ds where d: "skipWhiteSpace cs = d # ds"
      by (auto split: list.splits)
    show ?thesis
    proof (cases "d = 0x7D")
      case True
      with * obj d len skipWhiteSpace_shorter [of cs] show ?thesis
        by auto
    next
      case False
      with * obj d have "parseMembers [] cs = Some (v, rest)"
        by simp
      from "1.IH"(2) [OF sk obj d False this] len show ?thesis
        by simp
    qed
  next
    case other
    have "length rest < length (c # cs)"
      using * other
      by (auto split: if_splits option.splits simp: js_def
          dest!: parseLiteral_shorter scanNumber_shorter)
    with len show ?thesis
      by simp
  qed
next
  case (2 acc s)
  from "2.prems" obtain v' rest' where pv: "parseValue s = Some (v', rest')"
    by (subst (asm) parseElements.simps) (auto split: option.splits)
  from "2.prems" pv have lt: "length rest' < length s"
    by (subst (asm) parseElements.simps) (auto split: if_splits)
  from "2.prems" pv lt obtain d ds where d: "skipWhiteSpace rest' = d # ds"
    by (subst (asm) parseElements.simps) (auto split: list.splits)
  then have len: "length ds < length rest'"
    using skipWhiteSpace_shorter [of rest'] by simp
  show ?case
  proof (cases "d = 0x2C")
    case True
    with "2.prems" pv lt d have "parseElements (acc @ [v']) ds = Some (v1, rest1)"
      by (subst (asm) parseElements.simps) simp
    from "2.IH"(2) [OF pv _ _ d True this] lt len show ?thesis
      by simp
  next
    case False
    with "2.prems" pv lt d have "rest1 = ds"
      by (subst (asm) parseElements.simps) (auto split: if_splits)
    with lt len show ?thesis
      by simp
  qed
next
  case (3 acc s)
  note prem = "3.prems" [unfolded parseMembers.simps [of acc s]]
  from prem obtain q cs where sk: "skipWhiteSpace s = q # cs"
    by (auto split: list.splits)
  from prem sk have q: "\<not> q \<noteq> 0x22"
    by (auto split: if_splits)
  from prem sk q obtain k rest where pc: "parseChars [] cs = Some (k, rest)"
    by (auto split: option.splits)
  from prem sk q pc obtain c r1 where sk1: "skipWhiteSpace rest = c # r1"
    by (auto split: list.splits)
  from prem sk q pc sk1 have c: "\<not> (c \<noteq> 0x3A \<or> length s \<le> length r1)"
    by (auto split: if_splits)
  from prem sk q pc sk1 c obtain v r2 where pv: "parseValue r1 = Some (v, r2)"
    by (auto split: option.splits)
  from prem sk q pc sk1 c pv have lt: "\<not> length r1 \<le> length r2"
    by (auto split: if_splits)
  from prem sk q pc sk1 c pv lt obtain d ds where sk2: "skipWhiteSpace r2 = d # ds"
    by (auto split: list.splits)
  then have len: "length ds < length r2"
    using skipWhiteSpace_shorter [of r2] by simp
  show ?case
  proof (cases "d = 0x2C")
    case True
    with prem sk q pc sk1 c pv lt sk2
    have "parseMembers (obj_put acc k v) ds = Some (v2, rest2)"
      by simp
    from "3.IH"(2) [OF sk q pc _ sk1 c pv _ lt sk2 True this] c lt len show ?thesis
      by simp
  next
    case False
    with prem sk q pc sk1 c pv lt sk2 have "rest2 = ds"
      by (auto split: if_splits)
    with c lt len show ?thesis
      by simp
  qed
qed

text \<open>So the comparisons of lengths in the parser never reject anything.\<close>

lemma parseElements_unfold:
  "parseElements acc s =
     (case parseValue s of
        None \<Rightarrow> None
      | Some (v, rest) \<Rightarrow>
          (case skipWhiteSpace rest of
             [] \<Rightarrow> None
           | d # ds \<Rightarrow>
               if d = 0x2C then parseElements (acc @ [v]) ds
               else if d = 0x5D then Some (JArr (acc @ [v]), ds)
               else None))"
proof (cases "parseValue s")
  case None
  then show ?thesis
    by (subst parseElements.simps) simp
next
  case (Some a)
  obtain v rest where a: "a = (v, rest)"
    by (cases a)
  with Some have "length rest < length s"
    by (simp add: parse_shorter(1))
  with Some a show ?thesis
    by (subst parseElements.simps) simp
qed

lemma parseMembers_unfold:
  "parseMembers acc s =
     (case skipWhiteSpace s of
        [] \<Rightarrow> None
      | q # cs \<Rightarrow>
          if q \<noteq> 0x22 then None
          else
            (case parseChars [] cs of
               None \<Rightarrow> None
             | Some (k, rest) \<Rightarrow>
                 (case skipWhiteSpace rest of
                    [] \<Rightarrow> None
                  | c # rest1 \<Rightarrow>
                      if c \<noteq> 0x3A then None
                      else
                        (case parseValue rest1 of
                           None \<Rightarrow> None
                         | Some (v, rest2) \<Rightarrow>
                             (case skipWhiteSpace rest2 of
                                [] \<Rightarrow> None
                              | d # ds \<Rightarrow>
                                  if d = 0x2C then parseMembers (obj_put acc k v) ds
                                  else if d = 0x7D then Some (JObj (obj_put acc k v), ds)
                                  else None)))))"
proof -
  have 1: "\<not> length s \<le> length rest1"
    if "skipWhiteSpace s = q # cs" "parseChars [] cs = Some (k, rest)"
      "skipWhiteSpace rest = c # rest1" for q cs k rest c rest1
    using that skipWhiteSpace_shorter [of s] skipWhiteSpace_shorter [of rest]
      parseChars_shorter [of "[]" cs k rest]
    by simp
  have 2: "\<not> length rest1 \<le> length rest2"
    if "parseValue rest1 = Some (v, rest2)" for rest1 v rest2
    using parse_shorter(1) [OF that] by simp
  show ?thesis
    by (subst parseMembers.simps)
       (simp add: 1 2 split: option.split list.split)
qed

subsection \<open>The serialised state reads back as the state\<close>

lemma QuoteJSONString_Cons: "QuoteJSONString s @ rest = 0x22 # quoteChars s @ 0x22 # rest"
  by (simp add: QuoteJSONString_def)

lemma skipWhiteSpace_QuoteJSONString:
  "skipWhiteSpace (QuoteJSONString s @ rest) = QuoteJSONString s @ rest"
  by (simp add: QuoteJSONString_def skipWhiteSpace_Cons isJSONWhiteSpace_def)

lemma parseElements_strings:
  "parseElements acc (join [0x2C] (map QuoteJSONString (q # qs)) @ 0x5D # rest)
   = Some (JArr (acc @ map JStr (q # qs)), rest)"
proof (induction qs arbitrary: q acc)
  case Nil
  show ?case
    by (subst parseElements_unfold)
       (simp add: parseValue_string skipWhiteSpace_Cons isJSONWhiteSpace_def)
next
  case (Cons q' qs)
  show ?case
    using Cons [of "acc @ [JStr q]" q']
    by (subst parseElements_unfold)
       (simp add: parseValue_string skipWhiteSpace_Cons isJSONWhiteSpace_def)
qed

lemma parseValue_string_array:
  "parseValue (0x5B # join [0x2C] (map QuoteJSONString qs) @ 0x5D # rest)
   = Some (JArr (map JStr qs), rest)"
proof (cases qs)
  case Nil
  then show ?thesis
    by (subst parseValue.simps) (simp add: skipWhiteSpace_Cons isJSONWhiteSpace_def)
next
  case (Cons q qs')
  have "skipWhiteSpace (join [0x2C] (map QuoteJSONString (q # qs')) @ 0x5D # rest)
      = 0x22 # tl (join [0x2C] (map QuoteJSONString (q # qs')) @ 0x5D # rest)"
    by (cases qs') (simp_all add: QuoteJSONString_def skipWhiteSpace_Cons isJSONWhiteSpace_def)
  then show ?thesis
    using Cons parseElements_strings [of "[]" q qs' rest]
    by (subst parseValue.simps) (simp add: skipWhiteSpace_Cons isJSONWhiteSpace_def)
qed

lemma SerializeJSONArray_strings:
  "SerializeJSONArray P (map JStr qs) = 0x5B # join [0x2C] (map QuoteJSONString qs) @ [0x5D]"
  by (simp add: comp_def)

lemma not_index_title: "\<not> isArrayIndex (js ''title'')" "\<not> isArrayIndex (js ''list'')"
  by (simp_all add: isArrayIndex_def js_def isDigit_def)

lemma SerializeJSONObject_state:
  "SerializeJSONObject P [(js ''title'', JStr t), (js ''list'', JArr (map JStr qs))]
   = 0x7B # QuoteJSONString (js ''title'') @ 0x3A # QuoteJSONString t @ 0x2C #
       QuoteJSONString (js ''list'') @ 0x3A # 0x5B # join [0x2C] (map QuoteJSONString qs)
       @ [0x5D, 0x7D]"
  by (simp add: ownPropertyKeys_def not_index_title SerializeJSONArray_strings
      del: SerializeJSONArray.simps)

lemma parseValue_state:
  "parseValue (SerializeJSONObject P [(js ''title'', JStr t), (js ''list'', JArr (map JStr qs))])
   = Some (JObj [(js ''title'', JStr t), (js ''list'', JArr (map JStr qs))], [])"
proof -
  let ?arr = "0x5B # join [0x2C] (map QuoteJSONString qs) @ [0x5D, 0x7D]"
  let ?m2 = "QuoteJSONString (js ''list'') @ 0x3A # ?arr"
  let ?m1 = "QuoteJSONString (js ''title'') @ 0x3A # QuoteJSONString t @ 0x2C # ?m2"
  have ne: "js ''title'' \<noteq> js ''list''"
    by (simp add: js_def)
  have arr: "parseValue ?arr = Some (JArr (map JStr qs), [0x7D])"
    using parseValue_string_array [of qs "[0x7D]"] by simp
  have m2: "parseMembers [(js ''title'', JStr t)] ?m2
      = Some (JObj [(js ''title'', JStr t), (js ''list'', JArr (map JStr qs))], [])"
    by (subst parseMembers_unfold)
       (simp add: QuoteJSONString_Cons skipWhiteSpace_Cons isJSONWhiteSpace_def
          parseChars_quoteChars arr ne del: join.simps)
  have str: "parseValue (QuoteJSONString t @ 0x2C # ?m2) = Some (JStr t, 0x2C # ?m2)"
    by (rule parseValue_string)
  have m1: "parseMembers [] ?m1
      = Some (JObj [(js ''title'', JStr t), (js ''list'', JArr (map JStr qs))], [])"
    by (subst parseMembers_unfold)
       (simp add: QuoteJSONString_Cons [of "js ''title''"] skipWhiteSpace_Cons isJSONWhiteSpace_def
          parseChars_quoteChars str m2 del: join.simps)
  have "skipWhiteSpace ?m1 = 0x22 # tl ?m1"
    by (simp add: QuoteJSONString_def skipWhiteSpace_Cons isJSONWhiteSpace_def)
  then show ?thesis
    using m1
    by (subst parseValue.simps)
       (simp add: SerializeJSONObject_state skipWhiteSpace_Cons isJSONWhiteSpace_def
          del: SerializeJSONObject.simps join.simps)
qed

lemma JSON_parse_state:
  "JSON_parse (Some (SerializeJSONObject P [(js ''title'', JStr t), (js ''list'', JArr (map JStr qs))]))
   = Inr (JObj [(js ''title'', JStr t), (js ''list'', JArr (map JStr qs))])"
  by (simp add: JSON_parse_def parseValue_state skipWhiteSpace_def del: SerializeJSONObject.simps)

subsection \<open>The stand-in keeps the contract\<close>

lemma hexDecode_hexEncode: "hexDecode (hexEncode s) = Some s"
  by (induction s) (simp_all add: hexEncode_def UnicodeEscape_def hex4_hexDigit)

lemma inKeyStrUriSafe_hexDigit: "n < 16 \<Longrightarrow> inKeyStrUriSafe (hexDigit n)"
  by (simp add: inKeyStrUriSafe_def word_le_nat_alt unat_hexDigit)

lemma inKeyStrUriSafe_hexEncode: "list_all inKeyStrUriSafe (hexEncode s)"
proof (induction s)
  case Nil
  show ?case by (simp add: hexEncode_def)
next
  case (Cons c s)
  have "unat c < 65536"
    using unsigned_less [of c] by simp
  then have "unat c div 4096 < 16"
    by simp
  with Cons show ?case
    by (simp add: hexEncode_def UnicodeEscape_def inKeyStrUriSafe_hexDigit)
qed

lemma hexPlatform_contract: "LZString_contract hexPlatform"
  by (simp add: LZString_contract_def hexPlatform_def hexDecode_hexEncode
      inKeyStrUriSafe_hexEncode inKeyStrUriSafe_def)

subsection \<open>Encoding and decoding\<close>

lemma drop_assign_hash:
  "list_all inKeyStrUriSafe v \<Longrightarrow> drop (Suc 0) (assign_hash v) = v"
  by (cases v) (auto simp: assign_hash_def inKeyStrUriSafe_def)

lemma fragment_hashState:
  "LZString_contract P \<Longrightarrow>
   decompressFromEncodedURIComponent P (drop (Suc 0) (location_hash (hashState P st)))
   = Some (SerializeJSONObject P [(js ''title'', gName st), (js ''list'', qList st)])"
  by (simp add: hashState_def Let_def LZString_contract_def drop_assign_hash
      del: SerializeJSONObject.simps)

lemma unhashState_try_encoded:
  assumes "LZString_contract P" "gName st = JStr t" "qList st = JArr (map JStr qs)"
    and "location_hash st' = location_hash (hashState P st)"
  shows "unhashState_try P st' = Inr (st'\<lparr>gName := JStr t, qList := JArr (map JStr qs)\<rparr>)"
proof -
  have "JSON_parse (decompressFromEncodedURIComponent P (drop (Suc 0) (location_hash st')))
      = Inr (JObj [(js ''title'', JStr t), (js ''list'', JArr (map JStr qs))])"
    using assms by (simp add: fragment_hashState JSON_parse_state del: SerializeJSONObject.simps)
  moreover have "js ''title'' \<noteq> js ''list''"
    by (simp add: js_def)
  ultimately show ?thesis
    by (simp add: unhashState_try_def Let_def)
qed

lemma hashState_fields [simp]:
  "gName (hashState P st) = gName st" "qList (hashState P st) = qList st"
  by (simp_all add: hashState_def Let_def)


subsection \<open>The methods on a state whose list is an array\<close>

lemma qListAdd_failure:
  "qListAdd P item st = Inr (r, st') \<Longrightarrow> \<not> success r \<Longrightarrow> st' = st"
  by (auto simp: qListAdd_def Let_def split: jsval.splits if_splits sum.splits)


lemma qListAdd_success:
  assumes "qList st = JArr xs" "qListAdd P item st = Inr (r, st')" "success r"
  shows "st' = hashState P (st\<lparr>qList := JArr (xs @ [item])\<rparr>)"
    and "\<exists>s. item = JStr s \<and> trim s \<noteq> [] \<and> length (split_whitespace (trim s)) \<le> 20"
  using assms
  by (auto simp: qListAdd_def Let_def split: jsval.splits if_splits sum.splits)


lemma qListDelete_array:
  "qList st = JArr xs \<Longrightarrow>
   qListDelete P i st = Inr (hashState P (st\<lparr>qList := JArr (splice1 xs i)\<rparr>))"
  by (simp add: qListDelete_def)


lemma splice1_cases:
  "int (length xs) \<le> i \<Longrightarrow> splice1 xs i = xs"
  "0 \<le> i \<Longrightarrow> i < int (length xs) \<Longrightarrow> splice1 xs i = take (nat i) xs @ drop (Suc (nat i)) xs"
  "i < 0 \<Longrightarrow> splice1 xs i
     = take (nat (max (int (length xs) + i) 0)) xs @ drop (Suc (nat (max (int (length xs) + i) 0))) xs"
proof -
  show "splice1 xs i = xs" if "int (length xs) \<le> i"
    using that by (simp add: splice1_def Let_def min_def)
  show "splice1 xs i = take (nat i) xs @ drop (Suc (nat i)) xs" if "0 \<le> i" "i < int (length xs)"
  proof -
    have "nat (i + 1) = Suc (nat i)"
      using that by simp
    with that show ?thesis
      by (simp add: splice1_def Let_def min_def)
  qed
  show "splice1 xs i
     = take (nat (max (int (length xs) + i) 0)) xs @ drop (Suc (nat (max (int (length xs) + i) 0))) xs"
    if "i < 0"
  proof (cases "xs = []")
    case True
    then show ?thesis
      by (simp add: splice1_def Let_def)
  next
    case False
    define k where "k = max (int (length xs) + i) 0"
    have k: "0 \<le> k" "k < int (length xs)"
      using that False by (simp_all add: k_def)
    then have "nat (k + 1) = Suc (nat k)"
      by simp
    with k that show ?thesis
      by (simp add: splice1_def Let_def min_def k_def [symmetric])
  qed
qed

subsection \<open>The pieces of a trimmed text are its words\<close>

lemma dropWhile_nonempty_last:
  "dropWhile Q xs \<noteq> [] \<Longrightarrow> last (dropWhile Q xs) = last xs"
  by (induction xs) (auto split: if_splits)

lemma split_ws_words:
  assumes "t = [] \<or> \<not> isWhiteSpace (last t)"
    and "cur \<noteq> [] \<or> (t \<noteq> [] \<and> \<not> isWhiteSpace (hd t))"
  shows "split_ws cur t
    = (rev cur @ takeWhile (\<lambda>c. \<not> isWhiteSpace c) t)
      # spec_words (dropWhile (\<lambda>c. \<not> isWhiteSpace c) t)"
  using assms
proof (induction cur t rule: split_ws.induct)
  case (1 cur)
  then show ?case
    by (simp add: spec_words.simps [of "[]"])
next
  case (2 cur c cs)
  show ?case
  proof (cases "isWhiteSpace c")
    case True
    define u where "u = dropWhile isWhiteSpace cs"
    from True "2.prems"(1) have cs: "cs \<noteq> []" "\<not> isWhiteSpace (last cs)"
      by (auto split: if_splits)
    then have "last cs \<in> set cs"
      by simp
    with cs have u: "u \<noteq> []"
      by (auto simp: u_def dropWhile_eq_Nil_conv)
    then have hd: "\<not> isWhiteSpace (hd u)"
      unfolding u_def by (rule hd_dropWhile)
    have "last u = last cs"
      using u unfolding u_def by (rule dropWhile_nonempty_last)
    with cs have last: "\<not> isWhiteSpace (last u)"
      by simp
    have "split_ws [] u
        = (rev [] @ takeWhile (\<lambda>c. \<not> isWhiteSpace c) u)
          # spec_words (dropWhile (\<lambda>c. \<not> isWhiteSpace c) u)"
      using "2.IH"(1) [OF True] u hd last unfolding u_def by blast
    moreover have "spec_words (c # cs)
        = takeWhile (\<lambda>c. \<not> isWhiteSpace c) u # spec_words (dropWhile (\<lambda>c. \<not> isWhiteSpace c) u)"
      using True u by (subst spec_words.simps) (simp add: u_def Let_def)
    ultimately show ?thesis
      using True by (simp add: u_def)
  next
    case False
    have "cs = [] \<or> \<not> isWhiteSpace (last cs)"
      using "2.prems"(1) by (auto split: if_splits)
    then have "split_ws (c # cur) cs
        = (rev (c # cur) @ takeWhile (\<lambda>c. \<not> isWhiteSpace c) cs)
          # spec_words (dropWhile (\<lambda>c. \<not> isWhiteSpace c) cs)"
      using "2.IH"(2) [OF False] by blast
    with False show ?thesis
      by simp
  qed
qed

lemma trim_ends:
  assumes "trim s \<noteq> []"
  shows "\<not> isWhiteSpace (hd (trim s))" "\<not> isWhiteSpace (last (trim s))"
proof -
  define u where "u = dropWhile isWhiteSpace s"
  define v where "v = dropWhile isWhiteSpace (rev u)"
  have t: "trim s = rev v"
    by (simp add: trim_def u_def v_def)
  with assms have v: "v \<noteq> []"
    by simp
  then have "\<not> isWhiteSpace (hd v)"
    unfolding v_def by (rule hd_dropWhile)
  with v t show "\<not> isWhiteSpace (last (trim s))"
    by (simp add: last_rev)
  have "last v = last (rev u)"
    using v unfolding v_def by (rule dropWhile_nonempty_last)
  moreover have "u \<noteq> []"
    using v by (auto simp: v_def)
  ultimately have "hd (rev v) = hd u"
    by (simp add: hd_rev last_rev)
  moreover have "\<not> isWhiteSpace (hd u)"
    using \<open>u \<noteq> []\<close> unfolding u_def by (rule hd_dropWhile)
  ultimately show "\<not> isWhiteSpace (hd (trim s))"
    using t by simp
qed

lemma split_whitespace_trim:
  assumes "trim s \<noteq> []"
  shows "split_whitespace (trim s) = spec_words (trim s)"
proof -
  have "dropWhile isWhiteSpace (trim s) = trim s"
    using assms trim_ends(1) [OF assms] by (cases "trim s") simp_all
  then have "spec_words (trim s)
      = takeWhile (\<lambda>c. \<not> isWhiteSpace c) (trim s)
        # spec_words (dropWhile (\<lambda>c. \<not> isWhiteSpace c) (trim s))"
    using assms by (subst spec_words.simps) (simp add: Let_def)
  moreover have "split_ws [] (trim s)
      = (rev [] @ takeWhile (\<lambda>c. \<not> isWhiteSpace c) (trim s))
        # spec_words (dropWhile (\<lambda>c. \<not> isWhiteSpace c) (trim s))"
    using assms trim_ends [OF assms] by (intro split_ws_words) simp_all
  ultimately show ?thesis
    by (simp add: split_whitespace_def)
qed

lemma spec_words_leading:
  "list_all isWhiteSpace a \<Longrightarrow> spec_words (a @ x) = spec_words x"
proof -
  assume "list_all isWhiteSpace a"
  then have "dropWhile isWhiteSpace (a @ x) = dropWhile isWhiteSpace x"
    by (induction a) simp_all
  then show ?thesis
    by (subst spec_words.simps, subst (2) spec_words.simps) simp
qed

lemma spec_words_trailing:
  "list_all isWhiteSpace b \<Longrightarrow> spec_words (x @ b) = spec_words x"
proof (induction x rule: spec_words.induct)
  case (1 s)
  define s' where "s' = dropWhile isWhiteSpace s"
  define y where "y = dropWhile (\<lambda>c. \<not> isWhiteSpace c) s'"
  have b: "takeWhile (\<lambda>c. \<not> isWhiteSpace c) b = []" "dropWhile (\<lambda>c. \<not> isWhiteSpace c) b = b"
    using "1.prems" by (cases b; simp)+
  show ?case
  proof (cases "s' = []")
    case True
    then have "list_all isWhiteSpace (s @ b)"
      using "1.prems" by (auto simp: s'_def dropWhile_eq_Nil_conv list_all_iff)
    then have "dropWhile isWhiteSpace (s @ b) = []"
      by (simp add: dropWhile_eq_Nil_conv list_all_iff)
    with True show ?thesis
      by (subst spec_words.simps, subst (2) spec_words.simps) (simp add: s'_def)
  next
    case False
    then have ex: "\<exists>c \<in> set s. \<not> isWhiteSpace c"
      by (auto simp: s'_def dropWhile_eq_Nil_conv)
    then obtain c where "c \<in> set s" "\<not> isWhiteSpace c"
      by blast
    then have d: "dropWhile isWhiteSpace (s @ b) = s' @ b"
      unfolding s'_def by (rule dropWhile_append1)
    have t: "takeWhile (\<lambda>c. \<not> isWhiteSpace c) (s' @ b) = takeWhile (\<lambda>c. \<not> isWhiteSpace c) s'"
    proof (cases "\<forall>x \<in> set s'. \<not> isWhiteSpace x")
      case True
      then have tw: "takeWhile (\<lambda>c. \<not> isWhiteSpace c) s' = s'"
        by (simp add: takeWhile_eq_all_conv)
      show ?thesis
        by (simp add: takeWhile_append True b tw)
    next
      case False
      then show ?thesis
        by (auto simp: takeWhile_append)
    qed
    have dd: "dropWhile (\<lambda>c. \<not> isWhiteSpace c) (s' @ b) = y @ b"
      using b by (auto simp: y_def dropWhile_append dropWhile_eq_Nil_conv)
    have "spec_words (y @ b) = spec_words y"
      using "1.IH" [OF s'_def False] "1.prems" by (simp add: y_def)
    then have "spec_words (s @ b)
        = takeWhile (\<lambda>c. \<not> isWhiteSpace c) s' # spec_words y"
      using False d t dd by (subst spec_words.simps) (simp add: Let_def)
    moreover have "spec_words s = takeWhile (\<lambda>c. \<not> isWhiteSpace c) s' # spec_words y"
      using False by (subst spec_words.simps) (simp add: Let_def s'_def y_def)
    ultimately show ?thesis
      by simp
  qed
qed

lemma spec_words_trim: "spec_words (trim s) = spec_words s"
proof -
  define u where "u = dropWhile isWhiteSpace s"
  have "s = takeWhile isWhiteSpace s @ u"
    by (simp add: u_def)
  moreover have "list_all isWhiteSpace (takeWhile isWhiteSpace s)"
    by (auto simp: list_all_iff dest: set_takeWhileD)
  ultimately have 1: "spec_words s = spec_words u"
    by (metis spec_words_leading)
  have "rev (takeWhile isWhiteSpace (rev u) @ dropWhile isWhiteSpace (rev u)) = rev (rev u)"
    by (simp only: takeWhile_dropWhile_id)
  then have "rev (dropWhile isWhiteSpace (rev u)) @ rev (takeWhile isWhiteSpace (rev u)) = u"
    by (simp only: rev_append rev_rev_ident)
  then have "u = trim s @ rev (takeWhile isWhiteSpace (rev u))"
    by (simp only: trim_def u_def)
  moreover have "list_all isWhiteSpace (rev (takeWhile isWhiteSpace (rev u)))"
    by (auto simp: list_all_iff dest: set_takeWhileD)
  ultimately have "spec_words u = spec_words (trim s)"
    by (metis spec_words_trailing)
  with 1 show ?thesis
    by simp
qed

lemma wordCount_spec_words:
  "trim s \<noteq> [] \<Longrightarrow> length (split_whitespace (trim s)) = length (spec_words s)"
  by (simp add: split_whitespace_trim spec_words_trim)

lemma words_21:
  "spec_words (js ''w1 w2 w3 w4 w5 w6 w7 w8 w9 w10 w11 w12 w13 w14 w15 w16 w17 w18 w19 w20 w21'')
   = map js [''w1'', ''w2'', ''w3'', ''w4'', ''w5'', ''w6'', ''w7'', ''w8'', ''w9'', ''w10'',
       ''w11'', ''w12'', ''w13'', ''w14'', ''w15'', ''w16'', ''w17'', ''w18'', ''w19'', ''w20'',
       ''w21'']"
  by (simp add: spec_words.simps js_def isWhiteSpace_def)

subsection \<open>What \<^verbatim>\<open>JSON.parse\<close> can return\<close>

lemma parse_defined:
  "parseValue s = Some (v, rest) \<Longrightarrow> v \<noteq> JUndefined"
  "parseElements acc s1 = Some (v1, rest1) \<Longrightarrow> v1 \<noteq> JUndefined"
  "parseMembers acc' s2 = Some (v2, rest2) \<Longrightarrow> v2 \<noteq> JUndefined"
proof (induction s and acc s1 and acc' s2 arbitrary: v rest and v1 rest1 and v2 rest2
    rule: parseValue_parseElements_parseMembers.induct)
  case (1 s)
  from "1.prems" show ?case
    by (subst (asm) parseValue.simps)
       (auto simp: parseLiteral_def split: list.splits if_splits option.splits
          dest: "1.IH"(1) "1.IH"(2))
next
  case (2 acc s)
  note prem = "2.prems" [unfolded parseElements.simps [of acc s]]
  from prem obtain v' rest' where pv: "parseValue s = Some (v', rest')"
    by (auto split: option.splits)
  from prem pv have lt: "\<not> length s \<le> length rest'"
    by (auto split: if_splits)
  from prem pv lt obtain d ds where d: "skipWhiteSpace rest' = d # ds"
    by (auto split: list.splits)
  show ?case
  proof (cases "d = 0x2C")
    case True
    with prem pv lt d have "parseElements (acc @ [v']) ds = Some (v1, rest1)"
      by simp
    from "2.IH"(2) [OF pv _ lt d True this] show ?thesis
      by simp
  next
    case False
    with prem pv lt d show ?thesis
      by (auto split: if_splits)
  qed
next
  case (3 acc s)
  note prem = "3.prems" [unfolded parseMembers.simps [of acc s]]
  from prem obtain q cs where sk: "skipWhiteSpace s = q # cs"
    by (auto split: list.splits)
  from prem sk have q: "\<not> q \<noteq> 0x22"
    by (auto split: if_splits)
  from prem sk q obtain k rest where pc: "parseChars [] cs = Some (k, rest)"
    by (auto split: option.splits)
  from prem sk q pc obtain c r1 where sk1: "skipWhiteSpace rest = c # r1"
    by (auto split: list.splits)
  from prem sk q pc sk1 have c: "\<not> (c \<noteq> 0x3A \<or> length s \<le> length r1)"
    by (auto split: if_splits)
  from prem sk q pc sk1 c obtain v r2 where pv: "parseValue r1 = Some (v, r2)"
    by (auto split: option.splits)
  from prem sk q pc sk1 c pv have lt: "\<not> length r1 \<le> length r2"
    by (auto split: if_splits)
  from prem sk q pc sk1 c pv lt obtain d ds where sk2: "skipWhiteSpace r2 = d # ds"
    by (auto split: list.splits)
  show ?case
  proof (cases "d = 0x2C")
    case True
    with prem sk q pc sk1 c pv lt sk2
    have "parseMembers (obj_put acc k v) ds = Some (v2, rest2)"
      by simp
    from "3.IH"(2) [OF sk q pc _ sk1 c pv _ lt sk2 True this] show ?thesis
      by simp
  next
    case False
    with prem sk q pc sk1 c pv lt sk2 show ?thesis
      by (auto split: if_splits)
  qed
qed

lemma JSON_parse_defined: "JSON_parse text \<noteq> Inr JUndefined"
  by (auto simp: JSON_parse_def split: option.splits if_splits dest: parse_defined(1))

lemma JSON_parse_null: "JSON_parse None = Inr JNull"
  by code_simp

subsection \<open>The outcomes of \<^verbatim>\<open>#unhashState\<close>\<close>

lemma unhashState_error:
  assumes "(\<exists>e. JSON_parse (decompressFromEncodedURIComponent P (drop 1 (location_hash st))) = Inl e)
    \<or> JSON_parse (decompressFromEncodedURIComponent P (drop 1 (location_hash st))) = Inr JNull"
  shows "unhashState P st
    = (\<lparr>success = False, error = Some ''Error decoding''\<rparr>, st\<lparr>gName := JStr [], qList := JArr []\<rparr>)"
  using assms by (auto simp: unhashState_def unhashState_try_def Let_def)

lemma getProp_total:
  "obj \<noteq> JNull \<Longrightarrow> obj \<noteq> JUndefined \<Longrightarrow> \<exists>v. getProp obj k = Inr v"
  by (cases obj) simp_all

lemma unhashState_success:
  assumes "JSON_parse (decompressFromEncodedURIComponent P (drop 1 (location_hash st))) = Inr obj"
    and "obj \<noteq> JNull"
  shows "\<exists>t l. getProp obj (js ''title'') = Inr t \<and> getProp obj (js ''list'') = Inr l
    \<and> unhashState P st = (\<lparr>success = True, error = None\<rparr>, st\<lparr>gName := t, qList := l\<rparr>)"
proof -
  have "obj \<noteq> JUndefined"
    using assms(1) JSON_parse_defined by metis
  with assms(2) obtain t l where "getProp obj (js ''title'') = Inr t" "getProp obj (js ''list'') = Inr l"
    using getProp_total by blast
  with assms(1) show ?thesis
    by (simp add: unhashState_def unhashState_try_def Let_def)
qed

lemma decompress_hexPlatform:
  "decompressFromEncodedURIComponent hexPlatform (compressToEncodedURIComponent hexPlatform s) = Some s"
  using hexPlatform_contract by (simp add: LZString_contract_def)

text \<open>
  The first revision has no handler: on a fragment that decompresses to text that is not
  JSON, the exception of \<^verbatim>\<open>JSON.parse\<close> leaves \<^verbatim>\<open>#unhashState\<close>, and with it the
  constructor.
\<close>

lemma unhashState_rev1_throws:
  "JSON_parse (decompressFromEncodedURIComponent P (drop 1 (location_hash st))) = Inl e
   \<Longrightarrow> unhashState_rev1 P st = Inl e"
  by (simp add: unhashState_rev1_def Let_def)

lemma JSON_parse_not_json: "JSON_parse (Some (js ''not json'')) = Inl SyntaxError"
  by code_simp

lemma unhashState_rev1_throws_example:
  "unhashState_rev1 hexPlatform
     \<lparr>qList = JArr [], gName = JStr [],
      location_hash = 0x23 # compressToEncodedURIComponent hexPlatform (js ''not json'')\<rparr>
   = Inl SyntaxError"
  by (rule unhashState_rev1_throws) (simp add: decompress_hexPlatform JSON_parse_not_json)

lemma JSON_parse_title_only:
  \<open>JSON_parse (Some (js ''{"title":"x"}'')) = Inr (JObj [(js ''title'', JStr (js ''x''))])\<close>
  by code_simp

lemma JSON_parse_empty_question:
  \<open>JSON_parse (Some (js ''{"title":"t","list":[""]}''))
   = Inr (JObj [(js ''title'', JStr (js ''t'')), (js ''list'', JArr [JStr []])])\<close>
  by code_simp

lemma validQuestion_empty: "\<not> validQuestion (JStr [])"
  by (simp add: validQuestion_def trim_def)

lemma getProp_title_list:
  "getProp (JObj [(js ''title'', t)]) (js ''title'') = Inr t"
  "getProp (JObj [(js ''title'', t)]) (js ''list'') = Inr JUndefined"
  "getProp (JObj [(js ''title'', t), (js ''list'', l)]) (js ''title'') = Inr t"
  "getProp (JObj [(js ''title'', t), (js ''list'', l)]) (js ''list'') = Inr l"
  by (simp_all add: js_def)

lemma splice1_sublist: "list_all Q xs \<Longrightarrow> list_all Q (splice1 xs i)"
  by (auto simp: splice1_def Let_def list_all_iff dest: in_set_takeD in_set_dropD)

lemma validQuestions_hashState [simp]: "validQuestions (hashState P st) = validQuestions st"
  by (simp add: validQuestions_def)

subsection \<open>Valid questions stay valid\<close>

lemma valid_strings:
  "list_all validQuestion xs \<Longrightarrow> \<exists>qs. xs = map JStr qs"
proof (induction xs)
  case Nil
  then show ?case by simp
next
  case (Cons x xs)
  then obtain qs where "xs = map JStr qs"
    by auto
  moreover from Cons.prems obtain q where "x = JStr q"
    by (cases x) (simp_all add: validQuestion_def)
  ultimately have "x # xs = map JStr (q # qs)"
    by simp
  then show ?case
    by (rule exI)
qed

lemma reachable_valid:
  assumes "reachable P s0 s" "validQuestions s0"
  shows "validQuestions s"
  using assms
proof (induction rule: reachable.induct)
  case start
  then show ?case by simp
next
  case (title s name)
  then show ?case
    by (simp add: setGName_def validQuestions_def)
next
  case (add s item r s')
  then obtain xs where xs: "qList s = JArr xs" "list_all validQuestion xs"
    by (auto simp: validQuestions_def split: jsval.splits)
  show ?case
  proof (cases "success r")
    case True
    from qListAdd_success [OF xs(1) add.hyps(2) True] xs(2) show ?thesis
      by (auto simp: validQuestions_def validQuestion_def)
  next
    case False
    with add qListAdd_failure [OF add.hyps(2)] show ?thesis
      by simp
  qed
next
  case (delete s index s')
  then obtain xs where xs: "qList s = JArr xs" "list_all validQuestion xs"
    by (auto simp: validQuestions_def split: jsval.splits)
  with delete.hyps(2) qListDelete_array [OF xs(1), of P index] show ?case
    by (auto simp: validQuestions_def splice1_sublist)
qed

lemma hydrate_published_valid:
  assumes "LZString_contract P" "validQuestions s" "gName s = JStr t"
  shows "validQuestions (new_hostGame P (location_hash (hashState P s)))"
proof -
  from assms(2) obtain xs where xs: "qList s = JArr xs" "list_all validQuestion xs"
    by (auto simp: validQuestions_def split: jsval.splits)
  then obtain qs where qs: "xs = map JStr qs"
    using valid_strings by blast
  have "unhashState_try P \<lparr>qList = JArr [], gName = JStr [],
        location_hash = location_hash (hashState P s)\<rparr>
      = Inr \<lparr>qList = JArr (map JStr qs), gName = JStr t,
          location_hash = location_hash (hashState P s)\<rparr>"
    using assms(1,3) xs(1) qs
      unhashState_try_encoded [of P s t qs "\<lparr>qList = JArr [], gName = JStr [],
        location_hash = location_hash (hashState P s)\<rparr>"]
    by simp
  with xs(2) qs show ?thesis
    by (simp add: unhashState_def new_hostGame_def validQuestions_def)
qed


section \<open>The claims\<close>

text \<open>
  C1. Decoding what \<open>hashState\<close> published gives back the title and the questions, in
  order and exactly, whatever the strings are (so in particular for valid questions):
  \<open>#unhashState\<close> reports success and leaves the state as it is, and a new instance built
  from the published fragment holds the same title and list.
\<close>

theorem decode_encode_roundtrip:
  assumes "LZString_contract P" "gName st = JStr t" "qList st = JArr (map JStr qs)"
  shows "unhashState P (hashState P st) = (\<lparr>success = True, error = None\<rparr>, hashState P st)
    \<and> gName (new_hostGame P (location_hash (hashState P st))) = JStr t
    \<and> qList (new_hostGame P (location_hash (hashState P st))) = JArr (map JStr qs)"
proof -
  have "unhashState_try P (hashState P st) = Inr (hashState P st)"
    using unhashState_try_encoded [OF assms, of "hashState P st"] assms(2,3) by simp
  moreover have "unhashState_try P \<lparr>qList = JArr [], gName = JStr [],
        location_hash = location_hash (hashState P st)\<rparr>
      = Inr \<lparr>qList = JArr (map JStr qs), gName = JStr t,
          location_hash = location_hash (hashState P st)\<rparr>"
    using unhashState_try_encoded [OF assms, of "\<lparr>qList = JArr [], gName = JStr [],
        location_hash = location_hash (hashState P st)\<rparr>"] by simp
  ultimately show ?thesis
    by (simp add: unhashState_def new_hostGame_def)
qed

theorem decode_encode_roundtrip_witness:
  "LZString_contract hexPlatform
   \<and> unhashState hexPlatform (hashState hexPlatform
        \<lparr>qList = JArr [JStr (js ''What year did WWII end?'')], gName = JStr (js ''Trivia Night''),
         location_hash = []\<rparr>)
     = (\<lparr>success = True, error = None\<rparr>,
        hashState hexPlatform
          \<lparr>qList = JArr [JStr (js ''What year did WWII end?'')],
           gName = JStr (js ''Trivia Night''), location_hash = []\<rparr>)
   \<and> gName (new_hostGame hexPlatform (location_hash (hashState hexPlatform
        \<lparr>qList = JArr [JStr (js ''What year did WWII end?'')], gName = JStr (js ''Trivia Night''),
         location_hash = []\<rparr>))) = JStr (js ''Trivia Night'')
   \<and> qList (new_hostGame hexPlatform (location_hash (hashState hexPlatform
        \<lparr>qList = JArr [JStr (js ''What year did WWII end?'')], gName = JStr (js ''Trivia Night''),
         location_hash = []\<rparr>))) = JArr [JStr (js ''What year did WWII end?'')]"
  using decode_encode_roundtrip [of hexPlatform
      "\<lparr>qList = JArr [JStr (js ''What year did WWII end?'')], gName = JStr (js ''Trivia Night''),
        location_hash = []\<rparr>" "js ''Trivia Night''" "[js ''What year did WWII end?'']"]
    hexPlatform_contract
  by simp

text \<open>
  C7. The published string depends on the title and the questions only: two states with
  the same title and questions publish the same string whatever was published before,
  and publishing twice changes nothing.
\<close>

theorem encode_deterministic:
  "(gName a = gName b \<and> qList a = qList b
      \<longrightarrow> location_hash (hashState P a) = location_hash (hashState P b))
   \<and> hashState P (hashState P st) = hashState P st
   \<and> location_hash (setGName P name st) = location_hash (hashState P (st\<lparr>gName := name\<rparr>))"
  by (simp add: hashState_def setGName_def Let_def del: SerializeJSONObject.simps)


theorem encode_deterministic_witness:
  "(gName \<lparr>qList = JArr [JStr (js ''Q1'')], gName = JStr (js ''T''), location_hash = js ''#old''\<rparr>
      = gName \<lparr>qList = JArr [JStr (js ''Q1'')], gName = JStr (js ''T''), location_hash = []\<rparr>
    \<and> qList \<lparr>qList = JArr [JStr (js ''Q1'')], gName = JStr (js ''T''), location_hash = js ''#old''\<rparr>
      = qList \<lparr>qList = JArr [JStr (js ''Q1'')], gName = JStr (js ''T''), location_hash = []\<rparr>)
   \<and> location_hash (hashState hexPlatform
        \<lparr>qList = JArr [JStr (js ''Q1'')], gName = JStr (js ''T''), location_hash = js ''#old''\<rparr>)
     = location_hash (hashState hexPlatform
        \<lparr>qList = JArr [JStr (js ''Q1'')], gName = JStr (js ''T''), location_hash = []\<rparr>)"
  using encode_deterministic [of
      "\<lparr>qList = JArr [JStr (js ''Q1'')], gName = JStr (js ''T''), location_hash = js ''#old''\<rparr>"
      "\<lparr>qList = JArr [JStr (js ''Q1'')], gName = JStr (js ''T''), location_hash = []\<rparr>"
      hexPlatform]
  by simp


text \<open>
  C3. When \<open>qListAdd\<close> returns a failure, the state after the call is the state before
  it: title, list and published string.
\<close>

theorem add_failure_changes_nothing:
  "qListAdd P item st = Inr (r, st') \<Longrightarrow> \<not> success r \<Longrightarrow> st' = st"
  by (rule qListAdd_failure)


theorem add_failure_changes_nothing_witness:
  "qListAdd hexPlatform (JStr (js ''   ''))
     \<lparr>qList = JArr [JStr (js ''Q1'')], gName = JStr (js ''T''), location_hash = js ''#old''\<rparr>
   = Inr (\<lparr>success = False, error = Some ''Question cannot be empty''\<rparr>,
          \<lparr>qList = JArr [JStr (js ''Q1'')], gName = JStr (js ''T''), location_hash = js ''#old''\<rparr>)
   \<and> \<not> success \<lparr>success = False, error = Some ''Question cannot be empty''\<rparr>
   \<and> \<lparr>qList = JArr [JStr (js ''Q1'')], gName = JStr (js ''T''), location_hash = js ''#old''\<rparr>
     = \<lparr>qList = JArr [JStr (js ''Q1'')], gName = JStr (js ''T''), location_hash = js ''#old''\<rparr>"
proof -
  have run: "qListAdd hexPlatform (JStr (js ''   ''))
     \<lparr>qList = JArr [JStr (js ''Q1'')], gName = JStr (js ''T''), location_hash = js ''#old''\<rparr>
   = Inr (\<lparr>success = False, error = Some ''Question cannot be empty''\<rparr>,
          \<lparr>qList = JArr [JStr (js ''Q1'')], gName = JStr (js ''T''), location_hash = js ''#old''\<rparr>)"
    by (simp add: qListAdd_def trim_def js_def isWhiteSpace_def)
  show ?thesis
    using add_failure_changes_nothing [OF run] run by simp
qed

text \<open>
  C2 (as amended). \<open>qListAdd\<close> answers in this order, in every state: an item that is
  not a string fails with the message for a non-string; a string that is empty after
  trimming fails with the message for an empty question; a string of more than 20
  whitespace-delimited words fails with the message that carries the number of words.
  For any other string the outcome depends on the list field: when it is an array the
  call succeeds, and the list is the old list with the item at the end; when it is not
  an array the call throws a TypeError, and nothing has changed.
\<close>

theorem add_validates:
  "((\<forall>s. item \<noteq> JStr s) \<longrightarrow>
      qListAdd P item st
      = Inr (\<lparr>success = False, error = Some ''Item must be a string''\<rparr>, st))
   \<and> (\<forall>s. item = JStr s \<and> trim s = [] \<longrightarrow>
          qListAdd P item st
          = Inr (\<lparr>success = False, error = Some ''Question cannot be empty''\<rparr>, st))
   \<and> (\<forall>s. item = JStr s \<and> trim s \<noteq> [] \<and> 20 < length (spec_words s) \<longrightarrow>
          qListAdd P item st
          = Inr (\<lparr>success = False,
                  error = Some (''Question must be 20 words or less (currently ''
                                @ decimal (length (spec_words s)) @ '' words)'')\<rparr>, st))
   \<and> (\<forall>s xs. item = JStr s \<and> trim s \<noteq> [] \<and> length (spec_words s) \<le> 20
          \<and> qList st = JArr xs \<longrightarrow>
          qListAdd P item st
          = Inr (\<lparr>success = True, error = None\<rparr>,
                 hashState P (st\<lparr>qList := JArr (xs @ [item])\<rparr>)))
   \<and> (\<forall>s. item = JStr s \<and> trim s \<noteq> [] \<and> length (spec_words s) \<le> 20
          \<and> (\<forall>xs. qList st \<noteq> JArr xs) \<longrightarrow>
          qListAdd P item st = Inl TypeError)"
proof (intro conjI allI impI)
  assume "\<forall>s. item \<noteq> JStr s"
  then show "qListAdd P item st
      = Inr (\<lparr>success = False, error = Some ''Item must be a string''\<rparr>, st)"
    by (cases item) (simp_all add: qListAdd_def)
next
  fix s
  assume "item = JStr s \<and> trim s = []"
  then show "qListAdd P item st
      = Inr (\<lparr>success = False, error = Some ''Question cannot be empty''\<rparr>, st)"
    by (simp add: qListAdd_def)
next
  fix s
  assume "item = JStr s \<and> trim s \<noteq> [] \<and> 20 < length (spec_words s)"
  then show "qListAdd P item st
      = Inr (\<lparr>success = False,
              error = Some (''Question must be 20 words or less (currently ''
                            @ decimal (length (spec_words s)) @ '' words)'')\<rparr>, st)"
    by (simp add: qListAdd_def Let_def wordCount_spec_words)
next
  fix s xs
  assume "item = JStr s \<and> trim s \<noteq> [] \<and> length (spec_words s) \<le> 20 \<and> qList st = JArr xs"
  then show "qListAdd P item st
      = Inr (\<lparr>success = True, error = None\<rparr>, hashState P (st\<lparr>qList := JArr (xs @ [item])\<rparr>))"
    by (simp add: qListAdd_def Let_def wordCount_spec_words)
next
  fix s
  assume a: "item = JStr s \<and> trim s \<noteq> [] \<and> length (spec_words s) \<le> 20
      \<and> (\<forall>xs. qList st \<noteq> JArr xs)"
  then have "array_push (qList st) item = Inl TypeError"
    by (cases "qList st") simp_all
  with a show "qListAdd P item st = Inl TypeError"
    by (simp add: qListAdd_def Let_def wordCount_spec_words)
qed

theorem add_validates_witness:
  "qListAdd hexPlatform
        (JStr (js ''w1 w2 w3 w4 w5 w6 w7 w8 w9 w10 w11 w12 w13 w14 w15 w16 w17 w18 w19 w20 w21''))
        \<lparr>qList = JArr [], gName = JStr [], location_hash = []\<rparr>
     = Inr (\<lparr>success = False,
             error = Some ''Question must be 20 words or less (currently 21 words)''\<rparr>,
            \<lparr>qList = JArr [], gName = JStr [], location_hash = []\<rparr>)
   \<and> qListAdd hexPlatform (JStr (js ''one two three''))
        \<lparr>qList = JArr [], gName = JStr [], location_hash = []\<rparr>
     = Inr (\<lparr>success = True, error = None\<rparr>,
            hashState hexPlatform
              \<lparr>qList = JArr [JStr (js ''one two three'')], gName = JStr [], location_hash = []\<rparr>)
   \<and> qListAdd hexPlatform (JStr (js ''   ''))
        \<lparr>qList = JArr [], gName = JStr [], location_hash = []\<rparr>
     = Inr (\<lparr>success = False, error = Some ''Question cannot be empty''\<rparr>,
            \<lparr>qList = JArr [], gName = JStr [], location_hash = []\<rparr>)
   \<and> qListAdd hexPlatform (JStr [])
        \<lparr>qList = JArr [], gName = JStr [], location_hash = []\<rparr>
     = Inr (\<lparr>success = False, error = Some ''Question cannot be empty''\<rparr>,
            \<lparr>qList = JArr [], gName = JStr [], location_hash = []\<rparr>)
   \<and> qListAdd hexPlatform (JNum (js ''5''))
        \<lparr>qList = JArr [], gName = JStr [], location_hash = []\<rparr>
     = Inr (\<lparr>success = False, error = Some ''Item must be a string''\<rparr>,
            \<lparr>qList = JArr [], gName = JStr [], location_hash = []\<rparr>)
   \<and> qListAdd hexPlatform (JStr (js ''one two three''))
        \<lparr>qList = JUndefined, gName = JStr (js ''x''), location_hash = []\<rparr>
     = Inl TypeError"
proof -
  let ?st = "\<lparr>qList = JArr [], gName = JStr [], location_hash = []\<rparr>"
  let ?long = "js ''w1 w2 w3 w4 w5 w6 w7 w8 w9 w10 w11 w12 w13 w14 w15 w16 w17 w18 w19 w20 w21''"
  have t1: "trim ?long \<noteq> []" and t2: "trim (js ''one two three'') \<noteq> []"
    and t3: "trim (js ''   '') = []" and t4: "trim [] = []"
    by (simp_all add: trim_def js_def isWhiteSpace_def)
  have w1: "length (spec_words ?long) = 21"
    by (simp add: words_21)
  have w2: "length (spec_words (js ''one two three'')) = 3"
    by (simp add: spec_words.simps js_def isWhiteSpace_def)
  have d: "decimal 21 = ''21''"
    by (simp add: decimal.simps)
  note inst = add_validates [where P = hexPlatform and st = ?st]
  have "qListAdd hexPlatform (JStr ?long) ?st
      = Inr (\<lparr>success = False,
              error = Some ''Question must be 20 words or less (currently 21 words)''\<rparr>, ?st)"
    using inst [of "JStr ?long"] t1 w1 d by simp
  moreover have "qListAdd hexPlatform (JStr (js ''one two three'')) ?st
      = Inr (\<lparr>success = True, error = None\<rparr>,
             hashState hexPlatform
               \<lparr>qList = JArr [JStr (js ''one two three'')], gName = JStr [], location_hash = []\<rparr>)"
    using inst [of "JStr (js ''one two three'')"] t2 w2 by simp
  moreover have "qListAdd hexPlatform (JStr (js ''   '')) ?st
      = Inr (\<lparr>success = False, error = Some ''Question cannot be empty''\<rparr>, ?st)"
    using inst [of "JStr (js ''   '')"] t3 by simp
  moreover have "qListAdd hexPlatform (JStr []) ?st
      = Inr (\<lparr>success = False, error = Some ''Question cannot be empty''\<rparr>, ?st)"
    using inst [of "JStr []"] t4 by simp
  moreover have "qListAdd hexPlatform (JNum (js ''5'')) ?st
      = Inr (\<lparr>success = False, error = Some ''Item must be a string''\<rparr>, ?st)"
    using inst [of "JNum (js ''5'')"] by simp
  moreover have "qListAdd hexPlatform (JStr (js ''one two three''))
        \<lparr>qList = JUndefined, gName = JStr (js ''x''), location_hash = []\<rparr>
      = Inl TypeError"
    using add_validates [where P = hexPlatform and item = "JStr (js ''one two three'')"
        and st = "\<lparr>qList = JUndefined, gName = JStr (js ''x''), location_hash = []\<rparr>"]
      t2 w2
    by simp
  ultimately show ?thesis
    by simp
qed

text \<open>
  As a statement about every state the original fails: the constructor stores the list
  of the fragment unchecked, so after the fragment for the text \<^verbatim>\<open>{"title":"x"}\<close> the list
  field is \<^verbatim>\<open>undefined\<close>, and a valid question neither succeeds nor gets one of the three
  failures: \<^verbatim>\<open>push\<close> throws.
\<close>

theorem add_on_hydrated_state_counterexample:
  \<open>new_hostGame hexPlatform
     (0x23 # compressToEncodedURIComponent hexPlatform (js ''{"title":"x"}''))
   = \<lparr>qList = JUndefined, gName = JStr (js ''x''),
      location_hash = 0x23 # compressToEncodedURIComponent hexPlatform (js ''{"title":"x"}'')\<rparr>
   \<and> qListAdd hexPlatform (JStr (js ''one two three''))
       (new_hostGame hexPlatform
          (0x23 # compressToEncodedURIComponent hexPlatform (js ''{"title":"x"}'')))
     = Inl TypeError\<close>
proof -
  have new: \<open>new_hostGame hexPlatform
      (0x23 # compressToEncodedURIComponent hexPlatform (js ''{"title":"x"}''))
    = \<lparr>qList = JUndefined, gName = JStr (js ''x''),
       location_hash = 0x23 # compressToEncodedURIComponent hexPlatform (js ''{"title":"x"}'')\<rparr>\<close>
    by (simp add: new_hostGame_def unhashState_def unhashState_try_def decompress_hexPlatform
        JSON_parse_title_only getProp_title_list del: getProp.simps)
  have "trim (js ''one two three'') \<noteq> []"
    "length (split_whitespace (trim (js ''one two three''))) = 3"
    by (simp_all add: trim_def split_whitespace_def js_def isWhiteSpace_def)
  then show ?thesis
    unfolding new by (simp add: qListAdd_def Let_def)
qed

text \<open>
  C10. When \<open>qListAdd\<close> succeeds, the element it appended is the item as it was given, not
  its trimmed form: \<open>getQuestions\<close> then returns the old questions followed by that very
  string.
\<close>

theorem add_stores_item_verbatim:
  assumes "qList st = JArr xs" "qListAdd P (JStr s) st = Inr (r, st')" "success r"
  shows "getQuestions st' = Inr (xs @ [JStr s])"
  using qListAdd_success(1) [OF assms] by (simp add: getQuestions_def)

theorem add_stores_item_verbatim_witness:
  "qList \<lparr>qList = JArr [], gName = JStr [], location_hash = []\<rparr> = JArr []
   \<and> qListAdd hexPlatform (JStr (js '' hello ''))
        \<lparr>qList = JArr [], gName = JStr [], location_hash = []\<rparr>
     = Inr (\<lparr>success = True, error = None\<rparr>,
            hashState hexPlatform
              \<lparr>qList = JArr [JStr (js '' hello '')], gName = JStr [], location_hash = []\<rparr>)
   \<and> success \<lparr>success = True, error = None\<rparr>
   \<and> getQuestions (hashState hexPlatform
          \<lparr>qList = JArr [JStr (js '' hello '')], gName = JStr [], location_hash = []\<rparr>)
     = Inr [JStr (js '' hello '')]
   \<and> trim (js '' hello '') = js ''hello''
   \<and> js '' hello '' \<noteq> js ''hello''"
proof -
  let ?st = "\<lparr>qList = JArr [], gName = JStr [], location_hash = []\<rparr>"
  let ?st' = "hashState hexPlatform
      \<lparr>qList = JArr [JStr (js '' hello '')], gName = JStr [], location_hash = []\<rparr>"
  have st: "qList ?st = JArr []"
    by simp
  have run: "qListAdd hexPlatform (JStr (js '' hello '')) ?st
      = Inr (\<lparr>success = True, error = None\<rparr>, ?st')"
    by (simp add: qListAdd_def Let_def trim_def split_whitespace_def js_def isWhiteSpace_def)
  have ok: "success \<lparr>success = True, error = None\<rparr>"
    by simp
  have "trim (js '' hello '') = js ''hello''" "js '' hello '' \<noteq> js ''hello''"
    by (simp_all add: trim_def js_def isWhiteSpace_def)
  then show ?thesis
    using add_stores_item_verbatim [OF st run ok] st run by simp
qed

text \<open>
  C9. The order of the questions is kept: on a list that is an array, a successful
  \<open>qListAdd\<close> puts the item after the old elements; \<open>qListDelete\<close> removes at most one
  element and leaves the others in their order, the element at the index when the index
  is in range; decoding the published string gives the questions in the same order; and
  adding A, B, C to the empty list and deleting index 1 leaves A, C.
\<close>

theorem order_is_preserved:
  assumes "qList st = JArr xs"
  shows "(\<forall>item r st'. qListAdd P item st = Inr (r, st') \<and> success r
            \<longrightarrow> qList st' = JArr (xs @ [item]))
    \<and> (\<forall>i. \<exists>k st'. qListDelete P i st = Inr st'
            \<and> qList st' = JArr (take k xs @ drop (Suc k) xs)
            \<and> (0 \<le> i \<and> i < int (length xs) \<longrightarrow> k = nat i))
    \<and> (\<forall>t qs. LZString_contract P \<and> gName st = JStr t \<and> xs = map JStr qs
            \<longrightarrow> qList (new_hostGame P (location_hash (hashState P st))) = JArr xs)
    \<and> (\<forall>h. \<exists>r1 s1 r2 s2 r3 s3 s4.
            qListAdd P (JStr (js ''A'')) \<lparr>qList = JArr [], gName = JStr [], location_hash = h\<rparr>
              = Inr (r1, s1)
            \<and> qListAdd P (JStr (js ''B'')) s1 = Inr (r2, s2)
            \<and> qListAdd P (JStr (js ''C'')) s2 = Inr (r3, s3)
            \<and> qListDelete P 1 s3 = Inr s4
            \<and> qList s4 = JArr [JStr (js ''A''), JStr (js ''C'')])"
proof (intro conjI allI impI)
  fix item r st'
  assume "qListAdd P item st = Inr (r, st') \<and> success r"
  then show "qList st' = JArr (xs @ [item])"
    using qListAdd_success(1) [OF assms, of P item r st'] by simp
next
  fix i
  consider (high) "int (length xs) \<le> i" | (mid) "0 \<le> i" "i < int (length xs)" | (neg) "i < 0"
    by linarith
  then have "\<exists>k. splice1 xs i = take k xs @ drop (Suc k) xs
      \<and> (0 \<le> i \<and> i < int (length xs) \<longrightarrow> k = nat i)"
  proof cases
    case high
    then have "splice1 xs i = take (length xs) xs @ drop (Suc (length xs)) xs"
      by (simp add: splice1_cases(1))
    with high show ?thesis
      by (intro exI [of _ "length xs"]) simp
  next
    case mid
    then show ?thesis
      by (intro exI [of _ "nat i"]) (simp add: splice1_cases(2))
  next
    case neg
    then show ?thesis
      by (intro exI [of _ "nat (max (int (length xs) + i) 0)"]) (simp add: splice1_cases(3))
  qed
  then show "\<exists>k st'. qListDelete P i st = Inr st'
      \<and> qList st' = JArr (take k xs @ drop (Suc k) xs)
      \<and> (0 \<le> i \<and> i < int (length xs) \<longrightarrow> k = nat i)"
    using qListDelete_array [OF assms, of P i] by auto
next
  fix t qs
  assume a: "LZString_contract P \<and> gName st = JStr t \<and> xs = map JStr qs"
  then have "unhashState_try P \<lparr>qList = JArr [], gName = JStr [],
        location_hash = location_hash (hashState P st)\<rparr>
      = Inr \<lparr>qList = JArr (map JStr qs), gName = JStr t,
          location_hash = location_hash (hashState P st)\<rparr>"
    using assms
      unhashState_try_encoded [of P st t qs "\<lparr>qList = JArr [], gName = JStr [],
        location_hash = location_hash (hashState P st)\<rparr>"]
    by simp
  with a show "qList (new_hostGame P (location_hash (hashState P st))) = JArr xs"
    by (simp add: unhashState_def new_hostGame_def)
next
  fix h
  have t: "trim (js ''A'') = js ''A''" "trim (js ''B'') = js ''B''" "trim (js ''C'') = js ''C''"
    "js ''A'' \<noteq> []" "js ''B'' \<noteq> []" "js ''C'' \<noteq> []"
    "split_whitespace (js ''A'') = [js ''A'']" "split_whitespace (js ''B'') = [js ''B'']"
    "split_whitespace (js ''C'') = [js ''C'']"
    by (simp_all add: trim_def split_whitespace_def js_def isWhiteSpace_def)
  have d: "splice1 [JStr (js ''A''), JStr (js ''B''), JStr (js ''C'')] 1
      = [JStr (js ''A''), JStr (js ''C'')]"
    by (simp add: splice1_def)
  show "\<exists>r1 s1 r2 s2 r3 s3 s4.
      qListAdd P (JStr (js ''A'')) \<lparr>qList = JArr [], gName = JStr [], location_hash = h\<rparr>
        = Inr (r1, s1)
      \<and> qListAdd P (JStr (js ''B'')) s1 = Inr (r2, s2)
      \<and> qListAdd P (JStr (js ''C'')) s2 = Inr (r3, s3)
      \<and> qListDelete P 1 s3 = Inr s4
      \<and> qList s4 = JArr [JStr (js ''A''), JStr (js ''C'')]"
    by (simp add: qListAdd_def qListDelete_def t d)
qed

theorem order_is_preserved_witness:
  "qList \<lparr>qList = JArr [JStr (js ''A''), JStr (js ''B''), JStr (js ''C'')],
          gName = JStr (js ''T''), location_hash = []\<rparr>
     = JArr [JStr (js ''A''), JStr (js ''B''), JStr (js ''C'')]
   \<and> LZString_contract hexPlatform
   \<and> (\<exists>st'. qListDelete hexPlatform 1
          \<lparr>qList = JArr [JStr (js ''A''), JStr (js ''B''), JStr (js ''C'')],
           gName = JStr (js ''T''), location_hash = []\<rparr> = Inr st'
        \<and> qList st' = JArr [JStr (js ''A''), JStr (js ''C'')])
   \<and> qList (new_hostGame hexPlatform (location_hash (hashState hexPlatform
          \<lparr>qList = JArr [JStr (js ''A''), JStr (js ''B''), JStr (js ''C'')],
           gName = JStr (js ''T''), location_hash = []\<rparr>)))
     = JArr [JStr (js ''A''), JStr (js ''B''), JStr (js ''C'')]"
proof -
  let ?xs = "[JStr (js ''A''), JStr (js ''B''), JStr (js ''C'')]"
  let ?st = "\<lparr>qList = JArr ?xs, gName = JStr (js ''T''), location_hash = []\<rparr>"
  have st: "qList ?st = JArr ?xs"
    by simp
  note inst = order_is_preserved [OF st, of hexPlatform]
  from inst [THEN conjunct2, THEN conjunct1, THEN spec, of 1]
  obtain k st' where del: "qListDelete hexPlatform 1 ?st = Inr st'"
    and q: "qList st' = JArr (take k ?xs @ drop (Suc k) ?xs)" and k: "k = 1"
    by auto
  from q k have 1: "\<exists>st'. qListDelete hexPlatform 1 ?st = Inr st'
      \<and> qList st' = JArr [JStr (js ''A''), JStr (js ''C'')]"
    using del by auto
  from inst [THEN conjunct2, THEN conjunct2, THEN conjunct1, THEN spec, THEN spec,
      of "js ''T''" "[js ''A'', js ''B'', js ''C'']"]
  have 2: "qList (new_hostGame hexPlatform (location_hash (hashState hexPlatform ?st)))
      = JArr ?xs"
    using hexPlatform_contract by simp
  from 1 2 st hexPlatform_contract show ?thesis
    by blast
qed

text \<open>
  C4 (as amended). On a list that is an array, \<open>qListDelete\<close> never throws and always
  publishes the state again. An index at or beyond the length leaves the list as it is;
  an index in range removes the element at that position; a negative index counts from
  the end of the list (-1 is the last element), and one below minus the length removes
  the first element.
\<close>

theorem delete_by_index:
  assumes "qList st = JArr xs"
  shows "\<exists>xs'. qListDelete P i st = Inr (hashState P (st\<lparr>qList := JArr xs'\<rparr>))
    \<and> (int (length xs) \<le> i \<longrightarrow> xs' = xs)
    \<and> (0 \<le> i \<and> i < int (length xs) \<longrightarrow> xs' = take (nat i) xs @ drop (Suc (nat i)) xs)
    \<and> (i < 0 \<and> - int (length xs) \<le> i \<longrightarrow>
          xs' = take (nat (int (length xs) + i)) xs @ drop (Suc (nat (int (length xs) + i))) xs)
    \<and> (i < - int (length xs) \<longrightarrow> xs' = drop 1 xs)"
proof -
  have "i < 0 \<and> - int (length xs) \<le> i \<longrightarrow>
      splice1 xs i = take (nat (int (length xs) + i)) xs @ drop (Suc (nat (int (length xs) + i))) xs"
    using splice1_cases(3) [where xs = xs and i = i] by (simp add: max_def)
  moreover have "i < - int (length xs) \<longrightarrow> splice1 xs i = drop 1 xs"
    using splice1_cases(3) [where xs = xs and i = i] by (simp add: max_def)
  ultimately show ?thesis
    using qListDelete_array [OF assms, of P i] splice1_cases(1,2) [where xs = xs and i = i]
    by (intro exI [of _ "splice1 xs i"]) simp
qed

theorem delete_by_index_witness:
  "qList \<lparr>qList = JArr [JStr (js ''A''), JStr (js ''B'')], gName = JStr [], location_hash = []\<rparr>
     = JArr [JStr (js ''A''), JStr (js ''B'')]
   \<and> qListDelete hexPlatform 99
        \<lparr>qList = JArr [JStr (js ''A''), JStr (js ''B'')], gName = JStr [], location_hash = []\<rparr>
     = Inr (hashState hexPlatform
        \<lparr>qList = JArr [JStr (js ''A''), JStr (js ''B'')], gName = JStr [], location_hash = []\<rparr>)
   \<and> qListDelete hexPlatform 0
        \<lparr>qList = JArr [JStr (js ''A''), JStr (js ''B'')], gName = JStr [], location_hash = []\<rparr>
     = Inr (hashState hexPlatform
        \<lparr>qList = JArr [JStr (js ''B'')], gName = JStr [], location_hash = []\<rparr>)
   \<and> qListDelete hexPlatform (- 2)
        \<lparr>qList = JArr [JStr (js ''A''), JStr (js ''B'')], gName = JStr [], location_hash = []\<rparr>
     = Inr (hashState hexPlatform
        \<lparr>qList = JArr [JStr (js ''B'')], gName = JStr [], location_hash = []\<rparr>)"
proof -
  let ?xs = "[JStr (js ''A''), JStr (js ''B'')]"
  let ?st = "\<lparr>qList = JArr ?xs, gName = JStr [], location_hash = []\<rparr>"
  have st: "qList ?st = JArr ?xs"
    by simp
  note inst = delete_by_index [OF st, of hexPlatform]
  have "qListDelete hexPlatform 99 ?st = Inr (hashState hexPlatform ?st)"
    using inst [of 99] by auto
  moreover have "qListDelete hexPlatform 0 ?st
      = Inr (hashState hexPlatform \<lparr>qList = JArr [JStr (js ''B'')], gName = JStr [], location_hash = []\<rparr>)"
    using inst [of 0] by auto
  moreover have "qListDelete hexPlatform (- 2) ?st
      = Inr (hashState hexPlatform \<lparr>qList = JArr [JStr (js ''B'')], gName = JStr [], location_hash = []\<rparr>)"
    using inst [of "- 2"] by auto
  ultimately show ?thesis
    using st by simp
qed

text \<open>
  With a negative index as a no-op the statement fails: deleting index -1 from the list
  A, B removes B.
\<close>

theorem delete_negative_index_counterexample:
  "(- 1 :: int) < 0
   \<and> qListDelete hexPlatform (- 1)
        \<lparr>qList = JArr [JStr (js ''A''), JStr (js ''B'')], gName = JStr [], location_hash = []\<rparr>
     = Inr (hashState hexPlatform
        \<lparr>qList = JArr [JStr (js ''A'')], gName = JStr [], location_hash = []\<rparr>)
   \<and> JArr [JStr (js ''A'')] \<noteq> JArr [JStr (js ''A''), JStr (js ''B'')]"
  by (simp add: qListDelete_def splice1_def)

text \<open>
  C5. \<open>#unhashState\<close> (second revision) returns a result for every fragment: whatever
  its body throws is caught and becomes the failure object. For the empty fragment, for
  a fragment that does not decompress, and for one whose text \<^verbatim>\<open>JSON.parse\<close> rejects,
  the result is the failure object, both fields are reset, and the constructor leaves
  the empty state.
\<close>

theorem decode_failure_gives_empty_state:
  assumes "(LZString_contract P \<and> drop 1 h = [])
    \<or> decompressFromEncodedURIComponent P (drop 1 h) = None
    \<or> (\<exists>e. JSON_parse (decompressFromEncodedURIComponent P (drop 1 h)) = Inl e)"
  shows "unhashState P \<lparr>qList = q, gName = g, location_hash = h\<rparr>
      = (\<lparr>success = False, error = Some ''Error decoding''\<rparr>,
         \<lparr>qList = JArr [], gName = JStr [], location_hash = h\<rparr>)
    \<and> new_hostGame P h = \<lparr>qList = JArr [], gName = JStr [], location_hash = h\<rparr>
    \<and> (\<forall>st e. unhashState_try P st = Inl e \<longrightarrow>
          unhashState P st
          = (\<lparr>success = False, error = Some ''Error decoding''\<rparr>,
             st\<lparr>gName := JStr [], qList := JArr []\<rparr>))"
proof -
  have "(\<exists>e. JSON_parse (decompressFromEncodedURIComponent P (drop 1 h)) = Inl e)
      \<or> JSON_parse (decompressFromEncodedURIComponent P (drop 1 h)) = Inr JNull"
    using assms by (auto simp: LZString_contract_def JSON_parse_null)
  then have "unhashState P \<lparr>qList = q', gName = g', location_hash = h\<rparr>
      = (\<lparr>success = False, error = Some ''Error decoding''\<rparr>,
         \<lparr>qList = JArr [], gName = JStr [], location_hash = h\<rparr>)" for q' g'
    using unhashState_error [of P "\<lparr>qList = q', gName = g', location_hash = h\<rparr>"] by simp
  then show ?thesis
    by (simp add: new_hostGame_def unhashState_def)
qed

theorem decode_failure_gives_empty_state_witness:
  "LZString_contract hexPlatform \<and> drop 1 ([] :: jsstring) = []
   \<and> new_hostGame hexPlatform [] = \<lparr>qList = JArr [], gName = JStr [], location_hash = []\<rparr>
   \<and> decompressFromEncodedURIComponent hexPlatform (drop 1 (js ''#not-valid-compressed-data''))
     = None
   \<and> new_hostGame hexPlatform (js ''#not-valid-compressed-data'')
     = \<lparr>qList = JArr [], gName = JStr [], location_hash = js ''#not-valid-compressed-data''\<rparr>
   \<and> JSON_parse (decompressFromEncodedURIComponent hexPlatform
        (drop 1 (0x23 # compressToEncodedURIComponent hexPlatform (js ''not json''))))
     = Inl SyntaxError
   \<and> unhashState hexPlatform
        \<lparr>qList = JArr [JStr (js ''Q'')], gName = JStr (js ''T''),
         location_hash = 0x23 # compressToEncodedURIComponent hexPlatform (js ''not json'')\<rparr>
     = (\<lparr>success = False, error = Some ''Error decoding''\<rparr>,
        \<lparr>qList = JArr [], gName = JStr [],
         location_hash = 0x23 # compressToEncodedURIComponent hexPlatform (js ''not json'')\<rparr>)"
proof -
  have 1: "LZString_contract hexPlatform \<and> drop 1 ([] :: jsstring) = []"
    using hexPlatform_contract by simp
  have 2: "decompressFromEncodedURIComponent hexPlatform (drop 1 (js ''#not-valid-compressed-data''))
      = None"
    by (simp add: hexPlatform_def js_def)
  have 3: "JSON_parse (decompressFromEncodedURIComponent hexPlatform
        (drop 1 (0x23 # compressToEncodedURIComponent hexPlatform (js ''not json''))))
      = Inl SyntaxError"
    by (simp add: decompress_hexPlatform JSON_parse_not_json)
  show ?thesis
    using decode_failure_gives_empty_state [of hexPlatform "[]"] 1
      decode_failure_gives_empty_state [of hexPlatform "js ''#not-valid-compressed-data''"] 2
      decode_failure_gives_empty_state [of hexPlatform
        "0x23 # compressToEncodedURIComponent hexPlatform (js ''not json'')"
        "JArr [JStr (js ''Q'')]" "JStr (js ''T'')"] 3
    by simp
qed

text \<open>
  C6 (as amended). \<open>#unhashState\<close> takes the error path, and resets both fields, when
  \<^verbatim>\<open>JSON.parse\<close> throws or returns \<^verbatim>\<open>null\<close>. For every other parsed value it reports
  success and stores the value's \<^verbatim>\<open>title\<close> and \<^verbatim>\<open>list\<close> properties as they are; for an object
  without an own property of that name the stored value is \<^verbatim>\<open>undefined\<close>.
\<close>

theorem decode_error_or_properties:
  "(((\<exists>e. JSON_parse (decompressFromEncodedURIComponent P (drop 1 (location_hash st))) = Inl e)
      \<or> JSON_parse (decompressFromEncodedURIComponent P (drop 1 (location_hash st))) = Inr JNull)
     \<longrightarrow> unhashState P st
         = (\<lparr>success = False, error = Some ''Error decoding''\<rparr>,
            st\<lparr>gName := JStr [], qList := JArr []\<rparr>))
   \<and> (\<forall>obj. JSON_parse (decompressFromEncodedURIComponent P (drop 1 (location_hash st))) = Inr obj
         \<and> obj \<noteq> JNull
       \<longrightarrow> (\<exists>t l. getProp obj (js ''title'') = Inr t \<and> getProp obj (js ''list'') = Inr l
             \<and> unhashState P st = (\<lparr>success = True, error = None\<rparr>, st\<lparr>gName := t, qList := l\<rparr>)))
   \<and> (\<forall>kvs. getProp (JObj kvs) (js ''title'')
               = Inr (case map_of kvs (js ''title'') of None \<Rightarrow> JUndefined | Some v \<Rightarrow> v)
           \<and> getProp (JObj kvs) (js ''list'')
               = Inr (case map_of kvs (js ''list'') of None \<Rightarrow> JUndefined | Some v \<Rightarrow> v))"
  using unhashState_error [of P st] unhashState_success [of P st]
  by (intro conjI allI impI) simp_all

theorem decode_error_or_properties_witness:
  "JSON_parse (decompressFromEncodedURIComponent hexPlatform
      (drop 1 (0x23 # compressToEncodedURIComponent hexPlatform (js ''not json''))))
     = Inl SyntaxError
   \<and> unhashState hexPlatform
        \<lparr>qList = JArr [JStr (js ''Q'')], gName = JStr (js ''T''),
         location_hash = 0x23 # compressToEncodedURIComponent hexPlatform (js ''not json'')\<rparr>
     = (\<lparr>success = False, error = Some ''Error decoding''\<rparr>,
        \<lparr>qList = JArr [], gName = JStr [],
         location_hash = 0x23 # compressToEncodedURIComponent hexPlatform (js ''not json'')\<rparr>)"
proof -
  let ?st = "\<lparr>qList = JArr [JStr (js ''Q'')], gName = JStr (js ''T''),
      location_hash = 0x23 # compressToEncodedURIComponent hexPlatform (js ''not json'')\<rparr>"
  have 1: "JSON_parse (decompressFromEncodedURIComponent hexPlatform
        (drop 1 (0x23 # compressToEncodedURIComponent hexPlatform (js ''not json''))))
      = Inl SyntaxError"
    by (simp add: decompress_hexPlatform JSON_parse_not_json)
  then show ?thesis
    using decode_error_or_properties [of hexPlatform ?st, THEN conjunct1] by simp
qed

text \<open>
  With a missing field as an error the statement fails: on the fragment for the text
  \<^verbatim>\<open>{"title":"x"}\<close> the method reports success, and the list field is \<^verbatim>\<open>undefined\<close>.
\<close>

theorem decode_missing_list_counterexample:
  \<open>unhashState hexPlatform
     \<lparr>qList = JArr [], gName = JStr [],
      location_hash = 0x23 # compressToEncodedURIComponent hexPlatform (js ''{"title":"x"}'')\<rparr>
   = (\<lparr>success = True, error = None\<rparr>,
      \<lparr>qList = JUndefined, gName = JStr (js ''x''),
       location_hash = 0x23 # compressToEncodedURIComponent hexPlatform (js ''{"title":"x"}'')\<rparr>)\<close>
  by (simp add: unhashState_def unhashState_try_def decompress_hexPlatform JSON_parse_title_only
      getProp_title_list del: getProp.simps)

text \<open>
  C8 (as amended). From a state whose questions are all valid (the empty state is one),
  every state that \<open>setGName\<close>, \<open>qListAdd\<close> and \<open>qListDelete\<close> reach has only valid
  questions: each is a string, not empty after trimming, of at most 20 words. A state
  hydrated from the fragment published for such a state, when its title is a string, has
  only valid questions too.
\<close>

theorem questions_stay_valid:
  assumes "validQuestions s0" "reachable P s0 s"
  shows "validQuestions s
    \<and> (\<forall>t. LZString_contract P \<and> gName s = JStr t
          \<longrightarrow> validQuestions (new_hostGame P (location_hash (hashState P s))))"
  using reachable_valid [OF assms(2,1)] hydrate_published_valid [of P s] by blast

theorem questions_stay_valid_witness:
  "validQuestions (new_hostGame hexPlatform [])
   \<and> reachable hexPlatform (new_hostGame hexPlatform [])
        (hashState hexPlatform
           \<lparr>qList = JArr [JStr (js ''one two three'')], gName = JStr [], location_hash = []\<rparr>)
   \<and> validQuestions (hashState hexPlatform
        \<lparr>qList = JArr [JStr (js ''one two three'')], gName = JStr [], location_hash = []\<rparr>)
   \<and> LZString_contract hexPlatform
   \<and> validQuestions (new_hostGame hexPlatform (location_hash (hashState hexPlatform
        \<lparr>qList = JArr [JStr (js ''one two three'')], gName = JStr [], location_hash = []\<rparr>)))"
proof -
  let ?s0 = "\<lparr>qList = JArr [], gName = JStr [], location_hash = []\<rparr>"
  let ?s1 = "hashState hexPlatform
      \<lparr>qList = JArr [JStr (js ''one two three'')], gName = JStr [], location_hash = []\<rparr>"
  have new: "new_hostGame hexPlatform [] = ?s0"
    by (simp add: new_hostGame_def unhashState_def unhashState_try_def hexPlatform_def
        JSON_parse_null)
  have valid: "validQuestions ?s0"
    by (simp add: validQuestions_def)
  have "qListAdd hexPlatform (JStr (js ''one two three'')) ?s0
      = Inr (\<lparr>success = True, error = None\<rparr>, ?s1)"
    by (simp add: qListAdd_def Let_def trim_def split_whitespace_def js_def isWhiteSpace_def)
  then have reach: "reachable hexPlatform ?s0 ?s1"
    by (rule reachable.add [OF reachable.start])
  have idem: "hashState hexPlatform ?s1 = ?s1"
    by (simp add: hashState_def Let_def del: SerializeJSONObject.simps)
  show ?thesis
    using questions_stay_valid [OF valid reach] valid reach hexPlatform_contract
    by (simp add: new idem)
qed

text \<open>
  For a state hydrated from an arbitrary fragment the statement fails: the fragment for
  the text \<^verbatim>\<open>{"title":"t","list":[""]}\<close> gives a list that holds the empty question.
\<close>

theorem hydrated_question_invalid_counterexample:
  \<open>new_hostGame hexPlatform
     (0x23 # compressToEncodedURIComponent hexPlatform (js ''{"title":"t","list":[""]}''))
   = \<lparr>qList = JArr [JStr []], gName = JStr (js ''t''),
      location_hash = 0x23 # compressToEncodedURIComponent hexPlatform
        (js ''{"title":"t","list":[""]}'')\<rparr>
   \<and> \<not> validQuestions (new_hostGame hexPlatform
     (0x23 # compressToEncodedURIComponent hexPlatform (js ''{"title":"t","list":[""]}'')))\<close>
  by (simp add: new_hostGame_def unhashState_def unhashState_try_def decompress_hexPlatform
      JSON_parse_empty_question getProp_title_list validQuestions_def validQuestion_empty
      del: getProp.simps)

end
